theory Spec2Isabelle
  imports Complex_Main
begin

section \<open>The storage boundary\<close>

text \<open>
  The two request handlers (\<^verbatim>\<open>src/app/api/users/route.ts\<close>, the user listing, and the
  profile route with \<^verbatim>\<open>getProfile\<close> and \<^verbatim>\<open>updateProfile\<close>) talk to five relations through
  SQL text. A relation is a list of rows in the order the store scans it; a nullable
  column is an \<open>option\<close>. Timestamps are milliseconds since the epoch. Strings are
  lists of 8-bit characters, so the lengths below count characters of the Latin-1 range.
\<close>

type_synonym timestamp = int

datatype json =
    JNull
  | JBool bool
  | JNum int
  | JStr string
  | JArr "json list"
  | JObj "(string \<times> json) list"

text \<open>JavaScript truthiness of a parsed JSON value (\<^verbatim>\<open>profileJson ? ... : null\<close>, \<^verbatim>\<open>!!user.profile_json\<close>).\<close>

fun truthy :: "json \<Rightarrow> bool" where
  "truthy JNull = False"
| "truthy (JBool b) = b"
| "truthy (JNum n) = (n \<noteq> 0)"
| "truthy (JStr s) = (s \<noteq> [])"
| "truthy (JArr xs) = True"
| "truthy (JObj kvs) = True"

text \<open>Truthiness of a nullable string: \<^verbatim>\<open>null\<close>, \<^verbatim>\<open>undefined\<close> and \<^verbatim>\<open>""\<close> are falsy.\<close>

fun truthy_str :: "string option \<Rightarrow> bool" where
  "truthy_str None = False"
| "truthy_str (Some s) = (s \<noteq> [])"

record user_row =
  u_id :: int
  u_auth_id :: "int option"
  u_username :: "string option"
  u_full_name :: "string option"
  u_birth_date :: "string option"
  u_bio :: "string option"
  u_long_bio :: "string option"
  u_profile_json :: "json option"
  u_address :: "string option"
  u_phone_number :: "string option"
  u_created_at :: timestamp
  u_updated_at :: timestamp

record auth_row =
  a_id :: int
  a_email :: "string option"
  a_updated_at :: timestamp

record user_role_row =
  ur_user_id :: int
  ur_role :: string
  ur_created_at :: timestamp

record user_division_row =
  ud_user_id :: int
  ud_division_name :: string
  ud_created_at :: timestamp

record user_log_row =
  ul_user_id :: int
  ul_action :: string
  ul_created_at :: timestamp

record storage =
  users :: "user_row list"
  auth :: "auth_row list"
  user_roles :: "user_role_row list"
  user_divisions :: "user_division_row list"
  user_logs :: "user_log_row list"

section \<open>The listing query of \<^verbatim>\<open>GET /api/users\<close>\<close>

subsection \<open>Common table expressions\<close>

text \<open>
  \<^verbatim>\<open>user_stats\<close>, \<^verbatim>\<open>user_role_stats\<close> and \<^verbatim>\<open>user_division_stats\<close>: one row per
  \<^verbatim>\<open>user_id\<close> that occurs in the child relation (\<^verbatim>\<open>GROUP BY user_id\<close>), with its counts.
\<close>

record user_stats_row =
  us_user_id :: int
  us_log_count :: nat
  us_login_count :: nat
  us_update_count :: nat

definition logs_of :: "storage \<Rightarrow> int \<Rightarrow> user_log_row list" where
  "logs_of db uid = filter (\<lambda>l. ul_user_id l = uid) (user_logs db)"

definition roles_of :: "storage \<Rightarrow> int \<Rightarrow> user_role_row list" where
  "roles_of db uid = filter (\<lambda>r. ur_user_id r = uid) (user_roles db)"

definition divisions_of :: "storage \<Rightarrow> int \<Rightarrow> user_division_row list" where
  "divisions_of db uid = filter (\<lambda>d. ud_user_id d = uid) (user_divisions db)"

definition user_stats :: "storage \<Rightarrow> user_stats_row list" where
  "user_stats db =
     map (\<lambda>uid. \<lparr>us_user_id = uid,
                  us_log_count = length (logs_of db uid),
                  us_login_count = length (filter (\<lambda>l. ul_action l = ''login'') (logs_of db uid)),
                  us_update_count =
                    length (filter (\<lambda>l. ul_action l = ''update_profile'') (logs_of db uid))\<rparr>)
       (remdups (map ul_user_id (user_logs db)))"

definition user_role_stats :: "storage \<Rightarrow> (int \<times> nat) list" where
  "user_role_stats db =
     map (\<lambda>uid. (uid, length (roles_of db uid))) (remdups (map ur_user_id (user_roles db)))"

definition user_division_stats :: "storage \<Rightarrow> (int \<times> nat) list" where
  "user_division_stats db =
     map (\<lambda>uid. (uid, length (divisions_of db uid)))
       (remdups (map ud_user_id (user_divisions db)))"

subsection \<open>Joins\<close>

text \<open>
  The right-hand side of a \<^verbatim>\<open>LEFT JOIN\<close> for one left row: every matching row, or a single
  all-NULL row when none matches.
\<close>

definition outer :: "'a list \<Rightarrow> 'a option list" where
  "outer ys = (if ys = [] then [None] else map Some ys)"

text \<open>\<^verbatim>\<open>COALESCE(count, 0)\<close> over the optional statistics row.\<close>

fun coalesce0 :: "nat option \<Rightarrow> nat" where
  "coalesce0 None = 0"
| "coalesce0 (Some n) = n"

record user_query_row =
  q_user :: user_row
  q_email :: "string option"
  q_role :: "string option"
  q_division_name :: "string option"
  q_log_count :: nat
  q_role_count :: nat
  q_division_count :: nat
  q_login_count :: nat
  q_update_count :: nat

text \<open>
  The rows the \<^verbatim>\<open>FROM ... LEFT JOIN ...\<close> chain of the listing query produces for one user:
  \<^verbatim>\<open>auth\<close> on \<^verbatim>\<open>u.auth_id = a.id\<close>, then \<^verbatim>\<open>user_roles\<close> and \<^verbatim>\<open>user_divisions\<close> on
  \<^verbatim>\<open>u.id = user_id\<close> (every assignment row, the query has no \<^verbatim>\<open>LIMIT 1\<close> here), then the
  three statistics expressions.
\<close>

definition rows_for :: "storage \<Rightarrow> user_row \<Rightarrow> user_query_row list" where
  "rows_for db u =
     [ \<lparr>q_user = u,
        q_email = (case a of None \<Rightarrow> None | Some a' \<Rightarrow> a_email a'),
        q_role = map_option ur_role ur,
        q_division_name = map_option ud_division_name ud,
        q_log_count = coalesce0 (map_option us_log_count us),
        q_role_count = coalesce0 (map_option snd urs),
        q_division_count = coalesce0 (map_option snd uds),
        q_login_count = coalesce0 (map_option us_login_count us),
        q_update_count = coalesce0 (map_option us_update_count us)\<rparr>.
       a \<leftarrow> outer (filter (\<lambda>a. u_auth_id u = Some (a_id a)) (auth db)),
       ur \<leftarrow> outer (roles_of db (u_id u)),
       ud \<leftarrow> outer (divisions_of db (u_id u)),
       us \<leftarrow> outer (filter (\<lambda>s. us_user_id s = u_id u) (user_stats db)),
       urs \<leftarrow> outer (filter (\<lambda>s. fst s = u_id u) (user_role_stats db)),
       uds \<leftarrow> outer (filter (\<lambda>s. fst s = u_id u) (user_division_stats db)) ]"

definition joined_rows :: "storage \<Rightarrow> user_query_row list" where
  "joined_rows db = concat (map (rows_for db) (users db))"

subsection \<open>WHERE, ORDER BY, LIMIT and OFFSET\<close>

text \<open>
  \<^verbatim>\<open>if (divisionFilter && divisionFilter !== "all")\<close>: the division the \<^verbatim>\<open>WHERE\<close> clause
  compares with, if any.
\<close>

fun where_division :: "string option \<Rightarrow> string option" where
  "where_division None = None"
| "where_division (Some d) = (if d \<noteq> [] \<and> d \<noteq> ''all'' then Some d else None)"

text \<open>\<^verbatim>\<open>WHERE ud.division_name = $1\<close>; a NULL division name never compares equal.\<close>

fun where_clause :: "string option \<Rightarrow> string option \<Rightarrow> bool" where
  "where_clause None dn = True"
| "where_clause (Some d) dn = (dn = Some d)"

text \<open>\<^verbatim>\<open>ORDER BY u.created_at DESC, u.id DESC\<close>: when \<open>r\<close> may stand before \<open>s\<close>.\<close>

definition ordered_before :: "user_query_row \<Rightarrow> user_query_row \<Rightarrow> bool" where
  "ordered_before r s =
     (u_created_at (q_user s) < u_created_at (q_user r) \<or>
      (u_created_at (q_user s) = u_created_at (q_user r) \<and> u_id (q_user s) \<le> u_id (q_user r)))"

fun place :: "user_query_row \<Rightarrow> user_query_row list \<Rightarrow> user_query_row list" where
  "place r [] = [r]"
| "place r (s # rest) = (if ordered_before r s then r # s # rest else s # place r rest)"

definition order_by :: "user_query_row list \<Rightarrow> user_query_row list" where
  "order_by rows = foldr place rows []"

text \<open>
  \<^verbatim>\<open>page\<close>, \<^verbatim>\<open>pageSize\<close> and \<^verbatim>\<open>offset\<close> are JavaScript numbers, that is, doubles with an
  integer value; they are written here as that integer. Every integer up to \<open>2 ^ 53\<close> in
  magnitude is a double, and the arithmetic on such values is exact as long as the result
  stays in that range. Beyond it a result is rounded to the nearest double, at 53
  significant bits and with ties to the even neighbour (\<open>to_double\<close>; an overflow to
  \<^verbatim>\<open>Infinity\<close> is left as the large integer, which the store rejects all the same).
\<close>

function binary_digits :: "int \<Rightarrow> nat" where
  "binary_digits n = (if n \<le> 0 then 0 else Suc (binary_digits (n div 2)))"
  by pat_completeness auto
termination
  by (relation "measure nat") auto

declare binary_digits.simps [simp del]

definition nearest_double :: "int \<Rightarrow> int" where
  "nearest_double n =
     (let e = binary_digits n - 53; q = n div 2 ^ e; r = n mod 2 ^ e
      in if 2 * r < 2 ^ e \<or> (2 * r = 2 ^ e \<and> even q) then q * 2 ^ e else (q + 1) * 2 ^ e)"

definition to_double :: "int \<Rightarrow> int" where
  "to_double x = (if \<bar>x\<bar> \<le> 2 ^ 53 then x else sgn x * nearest_double \<bar>x\<bar>)"

text \<open>
  The driver sends a number parameter as its text, \<^verbatim>\<open>Number.prototype.toString\<close>. For a
  double up to \<open>2 ^ 53\<close> that is its decimal expansion. For a larger one (below
  \<open>10 ^ 21\<close>) it is the decimal with the fewest significant digits, padded with zeros,
  that reads back as the same double, the closest such decimal if there are several:
  \<^verbatim>\<open>2 ** 60\<close> is sent as \<^verbatim>\<open>1152921504606847000\<close>. \<open>number_text v\<close> is the integer
  that text denotes; \<open>candidates v z\<close> are the multiples of \<open>10 ^ z\<close> next to \<open>v\<close> that
  read back as \<open>v\<close>, the closer one first.
\<close>

function decimal_digits :: "int \<Rightarrow> nat" where
  "decimal_digits n = (if n < 10 then 1 else Suc (decimal_digits (n div 10)))"
  by pat_completeness auto
termination
  by (relation "measure nat") auto

declare decimal_digits.simps [simp del]

definition candidates :: "int \<Rightarrow> nat \<Rightarrow> int list" where
  "candidates v z =
     (let s = 10 ^ z; lo = v div s * s; hi = lo + s
      in filter (\<lambda>c. nearest_double c = v)
           (if v - lo < hi - v \<or> (v - lo = hi - v \<and> even (v div s))
            then [lo, hi] else [hi, lo]))"

definition number_text :: "int \<Rightarrow> int" where
  "number_text v =
     (if v \<le> 2 ^ 53 then v
      else case concat (map (candidates v) (rev [0..<decimal_digits v])) of
             [] \<Rightarrow> v
           | c # cs \<Rightarrow> c)"

text \<open>
  The row query as the store answers it: the joined rows that pass the \<^verbatim>\<open>WHERE\<close> clause,
  ordered (\<open>unpaged_rows\<close>), then the \<^verbatim>\<open>LIMIT\<close>/\<^verbatim>\<open>OFFSET\<close> window. PostgreSQL reads both
  parameters as \<^verbatim>\<open>bigint\<close>. It rejects a negative \<^verbatim>\<open>LIMIT\<close> or \<^verbatim>\<open>OFFSET\<close>, and it rejects a
  parameter whose text is not a \<^verbatim>\<open>bigint\<close>: a double of \<open>2 ^ 63\<close> or more is sent as a
  decimal out of range or in exponent notation (the greatest double below \<open>2 ^ 63\<close> is
  sent as \<^verbatim>\<open>9223372036854775000\<close>, which is in range). Either way the handler sees a
  thrown error (\<open>None\<close>).
\<close>

definition unpaged_rows :: "storage \<Rightarrow> string option \<Rightarrow> user_query_row list" where
  "unpaged_rows db w =
     order_by (filter (\<lambda>r. where_clause w (q_division_name r)) (joined_rows db))"

definition users_query ::
  "storage \<Rightarrow> string option \<Rightarrow> int \<Rightarrow> int \<Rightarrow> user_query_row list option" where
  "users_query db w pageSize offset =
     (if pageSize < 0 \<or> offset < 0 \<or> 2 ^ 63 \<le> pageSize \<or> 2 ^ 63 \<le> offset then None
      else Some (take (nat (number_text pageSize)) (drop (nat (number_text offset))
             (unpaged_rows db w))))"

text \<open>
  The count query: \<^verbatim>\<open>SELECT COUNT(DISTINCT u.id) FROM users u LEFT JOIN user_divisions ud
  ON u.id = ud.user_id\<close> with the same \<^verbatim>\<open>WHERE\<close> clause.
\<close>

definition count_rows_for :: "storage \<Rightarrow> user_row \<Rightarrow> (int \<times> string option) list" where
  "count_rows_for db u =
     map (\<lambda>ud. (u_id u, map_option ud_division_name ud)) (outer (divisions_of db (u_id u)))"

definition count_query :: "storage \<Rightarrow> string option \<Rightarrow> nat" where
  "count_query db w =
     length (remdups (map fst
       (filter (\<lambda>r. where_clause w (snd r)) (concat (map (count_rows_for db) (users db))))))"

subsection \<open>Row shaping\<close>

text \<open>
  The object built by \<^verbatim>\<open>result.rows.map\<close>. The fields read from columns the query does
  not select (\<^verbatim>\<open>displayName\<close>, \<^verbatim>\<open>totalUsers\<close>, ...) are always \<^verbatim>\<open>undefined\<close> and are left
  out, as are \<^verbatim>\<open>daysSinceCreated\<close> and the unpacked sub-documents of \<^verbatim>\<open>profile_json\<close>,
  which no other field depends on. \<^verbatim>\<open>n / 4 * 100\<close> is exact in floating point for
  \<open>n \<le> 4\<close>, so the completeness is a natural number.
\<close>

record user_view =
  lv_id :: int
  lv_username :: "string option"
  lv_fullName :: "string option"
  lv_email :: "string option"
  lv_birthDate :: "string option"
  lv_bio :: "string option"
  lv_longBio :: "string option"
  lv_profileJson :: "json option"
  lv_address :: "string option"
  lv_phoneNumber :: "string option"
  lv_createdAt :: timestamp
  lv_updatedAt :: timestamp
  lv_role :: "string option"
  lv_division :: "string option"
  lv_logCount :: nat
  lv_roleCount :: nat
  lv_divisionCount :: nat
  lv_loginCount :: nat
  lv_updateCount :: nat
  lv_isActive :: bool
  lv_isSenior :: bool
  lv_profileCompleteness :: nat

fun truthy_json :: "json option \<Rightarrow> bool" where
  "truthy_json None = False"
| "truthy_json (Some j) = truthy j"

definition shape :: "user_query_row \<Rightarrow> user_view" where
  "shape r =
     (let user = q_user r;
          profileJson = (if truthy_json (u_profile_json user) then u_profile_json user else None);
          isActive = (5 < q_log_count r);
          isSenior = (q_role r = Some ''admin'' \<or> q_role r = Some ''moderator'')
      in \<lparr>lv_id = u_id user,
          lv_username = u_username user,
          lv_fullName = u_full_name user,
          lv_email = q_email r,
          lv_birthDate = u_birth_date user,
          lv_bio = u_bio user,
          lv_longBio = u_long_bio user,
          lv_profileJson = profileJson,
          lv_address = u_address user,
          lv_phoneNumber = u_phone_number user,
          lv_createdAt = u_created_at user,
          lv_updatedAt = u_updated_at user,
          lv_role = q_role r,
          lv_division = q_division_name r,
          lv_logCount = q_log_count r,
          lv_roleCount = q_role_count r,
          lv_divisionCount = q_division_count r,
          lv_loginCount = q_login_count r,
          lv_updateCount = q_update_count r,
          lv_isActive = isActive,
          lv_isSenior = isSenior,
          lv_profileCompleteness =
            length (filter (\<lambda>b. b)
              [truthy_str (u_bio user), truthy_str (u_address user),
               truthy_str (u_phone_number user), truthy_json (u_profile_json user)]) * 100 div 4\<rparr>)"

subsection \<open>The page summary\<close>

text \<open>
  \<^verbatim>\<open>usersByDivision\<close> is a plain JavaScript object literal used as a dictionary, so its
  behaviour is that of an object whose prototype is \<^verbatim>\<open>Object.prototype\<close>: a property
  read falls back to the prototype's members, and \<^verbatim>\<open>__proto__\<close> is an accessor whose
  setter ignores a value that is not an object. The own properties are listed in the
  order the fold adds them (JSON lists integer-like keys first; no property below depends
  on the order). A value is the number the fold counts, or a non-empty string (what \<^verbatim>\<open>+ 1\<close>
  makes of an inherited function or object, and of such a string again).
\<close>

datatype jsval = JSNumber nat | JSString

type_synonym jsobject = "(string \<times> jsval) list"

datatype property = Undefined | Own jsval | Inherited

definition object_prototype_keys :: "string list" where
  "object_prototype_keys =
     [''constructor'', ''__defineGetter__'', ''__defineSetter__'', ''hasOwnProperty'',
      ''__lookupGetter__'', ''__lookupSetter__'', ''isPrototypeOf'', ''propertyIsEnumerable'',
      ''toString'', ''valueOf'', ''__proto__'', ''toLocaleString'']"

text \<open>\<^verbatim>\<open>obj[k]\<close>\<close>

definition get_property :: "jsobject \<Rightarrow> string \<Rightarrow> property" where
  "get_property obj k =
     (case map_of obj k of
        Some v \<Rightarrow> Own v
      | None \<Rightarrow> if k \<in> set object_prototype_keys then Inherited else Undefined)"

text \<open>\<^verbatim>\<open>(x || 0) + 1\<close>\<close>

fun or_zero_plus_one :: "property \<Rightarrow> jsval" where
  "or_zero_plus_one Undefined = JSNumber 1"
| "or_zero_plus_one (Own (JSNumber n)) = JSNumber (n + 1)"
| "or_zero_plus_one (Own JSString) = JSString"
| "or_zero_plus_one Inherited = JSString"

fun overwrite :: "string \<Rightarrow> jsval \<Rightarrow> jsobject \<Rightarrow> jsobject" where
  "overwrite k v [] = [(k, v)]"
| "overwrite k v ((k', v') # rest) =
     (if k' = k then (k, v) # rest else (k', v') # overwrite k v rest)"

text \<open>\<^verbatim>\<open>obj[k] = v\<close> for a primitive \<open>v\<close>\<close>

definition set_property :: "jsobject \<Rightarrow> string \<Rightarrow> jsval \<Rightarrow> jsobject" where
  "set_property obj k v = (if k = ''__proto__'' then obj else overwrite k v obj)"

text \<open>The property key a division is converted to: \<^verbatim>\<open>null\<close> becomes \<^verbatim>\<open>"null"\<close>.\<close>

fun division_key :: "string option \<Rightarrow> string" where
  "division_key None = ''null''"
| "division_key (Some d) = d"

record summary =
  activeUsers :: nat
  seniorUsers :: nat
  usersWithCompleteProfiles :: nat
  usersByDivision :: jsobject

definition summary_step :: "summary \<Rightarrow> user_view \<Rightarrow> summary" where
  "summary_step acc user =
     \<lparr>activeUsers = (if lv_isActive user then activeUsers acc + 1 else activeUsers acc),
      seniorUsers = (if lv_isSenior user then seniorUsers acc + 1 else seniorUsers acc),
      usersWithCompleteProfiles =
        (if 75 < lv_profileCompleteness user then usersWithCompleteProfiles acc + 1
         else usersWithCompleteProfiles acc),
      usersByDivision =
        set_property (usersByDivision acc) (division_key (lv_division user))
          (or_zero_plus_one (get_property (usersByDivision acc) (division_key (lv_division user))))\<rparr>"

definition summarize :: "user_view list \<Rightarrow> summary" where
  "summarize views =
     foldl summary_step
       \<lparr>activeUsers = 0, seniorUsers = 0, usersWithCompleteProfiles = 0, usersByDivision = []\<rparr>
       views"

text \<open>
  The sum of the values of \<^verbatim>\<open>usersByDivision\<close>: a value that is not a number
  contributes nothing.
\<close>

fun counted :: "jsval \<Rightarrow> nat" where
  "counted (JSNumber n) = n"
| "counted JSString = 0"

fun is_number :: "jsval \<Rightarrow> bool" where
  "is_number (JSNumber n) = True"
| "is_number JSString = False"

definition division_total :: "jsobject \<Rightarrow> nat" where
  "division_total obj = sum_list (map (\<lambda>kv. counted (snd kv)) obj)"

subsection \<open>The handler\<close>

text \<open>
  \<open>listUsers db divisionFilter page pageSize\<close> is the handler after its query string has
  been parsed: \<open>divisionFilter\<close> is \<^verbatim>\<open>searchParams.get("division")\<close>, \<open>page\<close> and
  \<open>pageSize\<close> are the numbers \<^verbatim>\<open>parseInt\<close> returned, finite doubles with an integer value
  (1 and 20 when the parameter is absent; a parameter \<^verbatim>\<open>parseInt\<close> reads as \<^verbatim>\<open>NaN\<close> or
  \<^verbatim>\<open>Infinity\<close> is outside this model). Both queries read the same storage
  state \<open>db\<close>. A thrown query error is answered with status 500. \<^verbatim>\<open>Math.ceil\<close> of a
  division by zero is \<^verbatim>\<open>Infinity\<close> or \<^verbatim>\<open>NaN\<close>, which JSON writes as \<^verbatim>\<open>null\<close>
  (\<open>None\<close>).
\<close>

record list_body =
  res_users :: "user_view list"
  res_total :: nat
  res_page :: int
  res_pageSize :: int
  res_totalPages :: "int option"
  res_activeUsers :: nat
  res_seniorUsers :: nat
  res_usersWithCompleteProfiles :: nat
  res_usersByDivision :: jsobject
  res_filteredBy :: string

datatype list_response = ListOk list_body | ListServerError

text \<open>\<^verbatim>\<open>const offset = (page - 1) * pageSize\<close>, in double precision\<close>

definition page_offset :: "int \<Rightarrow> int \<Rightarrow> int" where
  "page_offset page pageSize = to_double (to_double (page - 1) * pageSize)"

text \<open>\<^verbatim>\<open>divisionFilter || "all"\<close>\<close>

fun or_all :: "string option \<Rightarrow> string" where
  "or_all None = ''all''"
| "or_all (Some d) = (if d = [] then ''all'' else d)"

definition listUsers :: "storage \<Rightarrow> string option \<Rightarrow> int \<Rightarrow> int \<Rightarrow> list_response" where
  "listUsers db divisionFilter page pageSize =
     (let offset = page_offset page pageSize;
          w = where_division divisionFilter
      in case users_query db w pageSize offset of
           None \<Rightarrow> ListServerError
         | Some rows \<Rightarrow>
             (let totalCount = count_query db w;
                  views = map shape rows;
                  s = summarize views
              in ListOk
                   \<lparr>res_users = views,
                    res_total = totalCount,
                    res_page = page,
                    res_pageSize = pageSize,
                    res_totalPages =
                      (if pageSize = 0 then None
                       else Some \<lceil>real totalCount / real_of_int pageSize\<rceil>),
                    res_activeUsers = activeUsers s,
                    res_seniorUsers = seniorUsers s,
                    res_usersWithCompleteProfiles = usersWithCompleteProfiles s,
                    res_usersByDivision = usersByDivision s,
                    res_filteredBy = or_all divisionFilter\<rparr>))"

section \<open>The profile update of \<^verbatim>\<open>PUT /api/profile\<close>\<close>

subsection \<open>The request and its clock\<close>

text \<open>
  The JSON body. A field the body leaves out (or gives as \<^verbatim>\<open>null\<close>) is \<open>None\<close>.
\<close>

record ProfileData =
  username :: "string option"
  fullName :: "string option"
  email :: "string option"
  phone :: "string option"
  birthDate :: "string option"
  bio :: "string option"
  longBio :: "string option"
  address :: "string option"
  profileJson :: "json option"

text \<open>
  What the handler reads from its environment: the current instant (\<^verbatim>\<open>new Date()\<close>), the
  server's time zone as the offset of local time from UTC in milliseconds (taken as fixed,
  without daylight-saving changes), and the runtime's date parser \<^verbatim>\<open>new Date(string)\<close>,
  which is \<open>None\<close> for a string it reads as an invalid date.
\<close>

record clock =
  now :: timestamp
  tzOffset :: int
  parseDate :: "string \<Rightarrow> timestamp option"

definition msPerDay :: int where
  "msPerDay = 1000 * 60 * 60 * 24"

text \<open>\<^verbatim>\<open>today.setHours(0, 0, 0, 0)\<close>: the instant of the last local midnight.\<close>

definition today_midnight :: "clock \<Rightarrow> timestamp" where
  "today_midnight clk =
     (let local = now clk + tzOffset clk in local - local mod msPerDay - tzOffset clk)"

text \<open>
  The calendar day of an instant in the server's time zone, as a day number: what
  ``the same calendar date'' means for two instants.
\<close>

definition local_day :: "clock \<Rightarrow> timestamp \<Rightarrow> int" where
  "local_day clk t = (t + tzOffset clk) div msPerDay"

subsection \<open>The two regular expressions\<close>

text \<open>
  Matchers in continuation style: each takes what must match the rest of the string.
  \<open>many1 p k\<close> is \<^verbatim>\<open>p+\<close> followed by \<open>k\<close>, \<open>between lo hi p k\<close> is \<^verbatim>\<open>p{lo,hi}\<close> followed
  by \<open>k\<close>, \<open>lit c k\<close> is the character \<open>c\<close> followed by \<open>k\<close>, and \<open>eos\<close> is \<^verbatim>\<open>$\<close>
  (without the multi-line flag, the end of the input).
\<close>

primrec many1 :: "(char \<Rightarrow> bool) \<Rightarrow> (string \<Rightarrow> bool) \<Rightarrow> string \<Rightarrow> bool" where
  "many1 p k [] = False"
| "many1 p k (c # cs) = (p c \<and> (k cs \<or> many1 p k cs))"

primrec lit :: "char \<Rightarrow> (string \<Rightarrow> bool) \<Rightarrow> string \<Rightarrow> bool" where
  "lit a k [] = False"
| "lit a k (c # cs) = (c = a \<and> k cs)"

primrec between :: "(char \<Rightarrow> bool) \<Rightarrow> (string \<Rightarrow> bool) \<Rightarrow> string \<Rightarrow> nat \<Rightarrow> nat \<Rightarrow> bool" where
  "between p k [] lo hi = (lo = 0 \<and> k [])"
| "between p k (c # cs) lo hi =
     ((lo = 0 \<and> k (c # cs)) \<or> (0 < hi \<and> p c \<and> between p k cs (lo - 1) (hi - 1)))"

definition eos :: "string \<Rightarrow> bool" where
  "eos s = (s = [])"

text \<open>\<^verbatim>\<open>\s\<close> on 8-bit characters: tab, line feed, vertical tab, form feed, carriage return,
  space and the no-break space.\<close>

definition whitespace :: "char \<Rightarrow> bool" where
  "whitespace c =
     (c \<in> set [CHR 0x09, CHR 0x0A, CHR 0x0B, CHR 0x0C, CHR 0x0D, CHR 0x20, CHR 0xA0])"

definition nonspace :: "char \<Rightarrow> bool" where
  "nonspace c = (\<not> whitespace c)"

definition digit :: "char \<Rightarrow> bool" where
  "digit c = (c \<in> set ''0123456789'')"

text \<open>\<^verbatim>\<open>/^\S+@\S+\.\S+$/.test(s)\<close>\<close>

definition email_regex :: "string \<Rightarrow> bool" where
  "email_regex s =
     many1 nonspace (lit CHR ''@'' (many1 nonspace (lit CHR ''.'' (many1 nonspace eos)))) s"

text \<open>\<^verbatim>\<open>/^\d{10,15}$/.test(s)\<close>\<close>

definition phone_regex :: "string \<Rightarrow> bool" where
  "phone_regex s = between digit eos s 10 15"

subsection \<open>Validation\<close>

text \<open>The seven checks, each in the form of its \<^verbatim>\<open>if\<close> condition.\<close>

fun username_rejected :: "string option \<Rightarrow> bool" where
  "username_rejected None = True"
| "username_rejected (Some s) = (s = [] \<or> length s < 6)"

fun fullName_rejected :: "string option \<Rightarrow> bool" where
  "fullName_rejected None = True"
| "fullName_rejected (Some s) = (s = [])"

fun email_rejected :: "string option \<Rightarrow> bool" where
  "email_rejected None = True"
| "email_rejected (Some s) = (s = [] \<or> \<not> email_regex s)"

fun phone_rejected :: "string option \<Rightarrow> bool" where
  "phone_rejected None = True"
| "phone_rejected (Some s) = (s = [] \<or> \<not> phone_regex s)"

text \<open>
  \<^verbatim>\<open>if (birthDate) { const date = new Date(birthDate); ...; if (date > today) ... }\<close>.
  An invalid date compares false with everything.
\<close>

fun birthDate_rejected :: "clock \<Rightarrow> string option \<Rightarrow> bool" where
  "birthDate_rejected clk None = False"
| "birthDate_rejected clk (Some s) =
     (s \<noteq> [] \<and>
      (case parseDate clk s of None \<Rightarrow> False | Some date \<Rightarrow> today_midnight clk < date))"

fun longer_than :: "nat \<Rightarrow> string option \<Rightarrow> bool" where
  "longer_than n None = False"
| "longer_than n (Some s) = (s \<noteq> [] \<and> n < length s)"

text \<open>The \<^verbatim>\<open>errors\<close> object: its properties in the order the checks add them.\<close>

definition validate :: "clock \<Rightarrow> ProfileData \<Rightarrow> (string \<times> string) list" where
  "validate clk d =
     (if username_rejected (username d)
      then [(''username'', ''Username must be at least 6 characters.'')] else []) @
     (if fullName_rejected (fullName d)
      then [(''fullName'', ''Full name is required.'')] else []) @
     (if email_rejected (email d)
      then [(''email'', ''Must be a valid email format.'')] else []) @
     (if phone_rejected (phone d)
      then [(''phone'', ''Phone must be 10-15 digits.'')] else []) @
     (if birthDate_rejected clk (birthDate d)
      then [(''birthDate'', ''Birth date cannot be in the future.'')] else []) @
     (if longer_than 160 (bio d)
      then [(''bio'', ''Bio must be 160 characters or less.'')] else []) @
     (if longer_than 2000 (longBio d)
      then [(''longBio'', ''Long bio must be 2000 characters or less.'')] else [])"

subsection \<open>The statements sent to the store\<close>

text \<open>
  The \<^verbatim>\<open>UPDATE users ... RETURNING auth_id\<close> with the \<^verbatim>\<open>UPDATE auth\<close> that reads it. An
  \<^verbatim>\<open>undefined\<close> parameter is sent as NULL. The schema (column types, keys, constraints) is
  not part of the repository's files, so the store takes every value as given.
\<close>

definition update_statement :: "clock \<Rightarrow> storage \<Rightarrow> int \<Rightarrow> ProfileData \<Rightarrow> storage" where
  "update_statement clk db userId d =
     (let returned = map u_auth_id (filter (\<lambda>u. u_id u = userId) (users db))
      in db\<lparr>users :=
              map (\<lambda>u. if u_id u = userId
                        then u\<lparr>u_username := username d,
                               u_full_name := fullName d,
                               u_bio := bio d,
                               u_long_bio := longBio d,
                               u_address := address d,
                               u_phone_number := phone d,
                               u_birth_date := birthDate d,
                               u_profile_json :=
                                 (if truthy_json (profileJson d) then profileJson d else None),
                               u_updated_at := now clk\<rparr>
                        else u) (users db),
            auth :=
              map (\<lambda>a. if Some (a_id a) \<in> set returned
                        then a\<lparr>a_email := email d, a_updated_at := now clk\<rparr>
                        else a) (auth db)\<rparr>)"

text \<open>
  \<^verbatim>\<open>SELECT ... ORDER BY created_at DESC LIMIT 1\<close> inside a lateral join: a row with the
  greatest creation time, the first such row in scan order (the store is free to pick any
  of them).
\<close>

fun latest :: "('a \<Rightarrow> timestamp) \<Rightarrow> 'a list \<Rightarrow> 'a option" where
  "latest created [] = None"
| "latest created (x # xs) =
     (case latest created xs of
        None \<Rightarrow> Some x
      | Some y \<Rightarrow> if created x < created y then Some y else Some x)"

record profile_view =
  pv_id :: int
  pv_authId :: "int option"
  pv_username :: "string option"
  pv_fullName :: "string option"
  pv_bio :: "string option"
  pv_longBio :: "string option"
  pv_profileJson :: "json option"
  pv_address :: "string option"
  pv_phoneNumber :: "string option"
  pv_birthDate :: "string option"
  pv_role :: "string option"
  pv_division :: "string option"
  pv_logCount :: nat
  pv_roleCount :: nat

text \<open>The select after the update, already shaped as the response's \<^verbatim>\<open>user\<close> object.\<close>

definition select_statement :: "storage \<Rightarrow> int \<Rightarrow> profile_view list" where
  "select_statement db userId =
     map (\<lambda>u. \<lparr>pv_id = u_id u,
                pv_authId = u_auth_id u,
                pv_username = u_username u,
                pv_fullName = u_full_name u,
                pv_bio = u_bio u,
                pv_longBio = u_long_bio u,
                pv_profileJson = u_profile_json u,
                pv_address = u_address u,
                pv_phoneNumber = u_phone_number u,
                pv_birthDate = u_birth_date u,
                pv_role = map_option ur_role (latest ur_created_at (roles_of db (u_id u))),
                pv_division =
                  map_option ud_division_name (latest ud_created_at (divisions_of db (u_id u))),
                pv_logCount = length (logs_of db (u_id u)),
                pv_roleCount = length (roles_of db (u_id u))\<rparr>)
       (filter (\<lambda>u. u_id u = userId) (users db))"

text \<open>\<^verbatim>\<open>INSERT INTO user_logs (user_id, action) VALUES ($1, $2)\<close>\<close>

definition insert_log :: "clock \<Rightarrow> storage \<Rightarrow> int \<Rightarrow> string \<Rightarrow> storage" where
  "insert_log clk db userId action =
     db\<lparr>user_logs :=
          user_logs db @ [\<lparr>ul_user_id = userId, ul_action = action, ul_created_at = now clk\<rparr>]\<rparr>"

subsection \<open>The handler\<close>

text \<open>
  \<open>updateProfile clk db userId d\<close> returns the response together with the storage state
  the request leaves behind. The statements run in the handler's order: update, select,
  insert of the log row. When the select finds no row, reading \<^verbatim>\<open>updatedUser.id\<close> throws
  after the insert, and the handler answers 500.
\<close>

datatype update_response =
    UpdateOk profile_view
  | ValidationFailed "(string \<times> string) list"
  | UpdateServerError

definition updateProfile ::
  "clock \<Rightarrow> storage \<Rightarrow> int \<Rightarrow> ProfileData \<Rightarrow> update_response \<times> storage" where
  "updateProfile clk db userId d =
     (let errors = validate clk d
      in if 0 < length errors then (ValidationFailed errors, db)
         else
           (let db1 = update_statement clk db userId d;
                rows = select_statement db1 userId;
                db2 = insert_log clk db1 userId ''update_profile''
            in case rows of
                 [] \<Rightarrow> (UpdateServerError, db2)
               | updatedUser # others \<Rightarrow> (UpdateOk updatedUser, db2)))"

section \<open>Example states\<close>

text \<open>
  A small team: Alice has one role, one division and one log row, Bob has a division
  only, Carol has no child row at all. Bob and Carol were created at the same instant.
\<close>

definition alice :: user_row where
  "alice =
     \<lparr>u_id = 1, u_auth_id = Some 1, u_username = Some ''alice01'',
      u_full_name = Some ''Alice'', u_birth_date = None, u_bio = Some ''old bio'',
      u_long_bio = None, u_profile_json = None, u_address = Some ''1 Main St'',
      u_phone_number = Some ''0811111111'', u_created_at = 1000, u_updated_at = 1000\<rparr>"

definition bob :: user_row where
  "bob =
     \<lparr>u_id = 2, u_auth_id = None, u_username = Some ''bob0002'',
      u_full_name = Some ''Bob'', u_birth_date = None, u_bio = None,
      u_long_bio = None, u_profile_json = None, u_address = None,
      u_phone_number = None, u_created_at = 2000, u_updated_at = 2000\<rparr>"

definition carol :: user_row where
  "carol =
     \<lparr>u_id = 3, u_auth_id = None, u_username = Some ''carol03'',
      u_full_name = Some ''Carol'', u_birth_date = None, u_bio = None,
      u_long_bio = None, u_profile_json = None, u_address = None,
      u_phone_number = None, u_created_at = 2000, u_updated_at = 2000\<rparr>"

definition db_team :: storage where
  "db_team =
     \<lparr>users = [alice, bob, carol],
      auth = [\<lparr>a_id = 1, a_email = Some ''alice@example.com'', a_updated_at = 1000\<rparr>],
      user_roles = [\<lparr>ur_user_id = 1, ur_role = ''admin'', ur_created_at = 10\<rparr>],
      user_divisions =
        [\<lparr>ud_user_id = 1, ud_division_name = ''Engineering'', ud_created_at = 10\<rparr>,
         \<lparr>ud_user_id = 2, ud_division_name = ''Engineering'', ud_created_at = 20\<rparr>],
      user_logs = [\<lparr>ul_user_id = 1, ul_action = ''login'', ul_created_at = 30\<rparr>]\<rparr>"

text \<open>The first page of two of the unfiltered listing of \<open>db_team\<close>.\<close>

definition view_carol :: user_view where
  "view_carol =
     \<lparr>lv_id = 3, lv_username = Some ''carol03'', lv_fullName = Some ''Carol'',
      lv_email = None, lv_birthDate = None, lv_bio = None, lv_longBio = None,
      lv_profileJson = None, lv_address = None, lv_phoneNumber = None,
      lv_createdAt = 2000, lv_updatedAt = 2000, lv_role = None, lv_division = None,
      lv_logCount = 0, lv_roleCount = 0, lv_divisionCount = 0, lv_loginCount = 0,
      lv_updateCount = 0, lv_isActive = False, lv_isSenior = False,
      lv_profileCompleteness = 0\<rparr>"

definition view_bob :: user_view where
  "view_bob =
     \<lparr>lv_id = 2, lv_username = Some ''bob0002'', lv_fullName = Some ''Bob'',
      lv_email = None, lv_birthDate = None, lv_bio = None, lv_longBio = None,
      lv_profileJson = None, lv_address = None, lv_phoneNumber = None,
      lv_createdAt = 2000, lv_updatedAt = 2000, lv_role = None,
      lv_division = Some ''Engineering'',
      lv_logCount = 0, lv_roleCount = 0, lv_divisionCount = 1, lv_loginCount = 0,
      lv_updateCount = 0, lv_isActive = False, lv_isSenior = False,
      lv_profileCompleteness = 0\<rparr>"

definition page_team :: list_body where
  "page_team =
     \<lparr>res_users = [view_carol, view_bob],
      res_total = 3, res_page = 1, res_pageSize = 2, res_totalPages = Some 2,
      res_activeUsers = 0, res_seniorUsers = 0, res_usersWithCompleteProfiles = 0,
      res_usersByDivision = [(''null'', JSNumber 1), (''Engineering'', JSNumber 1)],
      res_filteredBy = ''all''\<rparr>"

text \<open>Bob alone, with two role assignments.\<close>

definition db_two_roles :: storage where
  "db_two_roles =
     \<lparr>users = [bob],
      auth = [],
      user_roles = [\<lparr>ur_user_id = 2, ur_role = ''admin'', ur_created_at = 10\<rparr>,
                    \<lparr>ur_user_id = 2, ur_role = ''member'', ur_created_at = 20\<rparr>],
      user_divisions = [],
      user_logs = []\<rparr>"

text \<open>Bob alone, in a division whose name is \<^verbatim>\<open>__proto__\<close>.\<close>

definition db_proto :: storage where
  "db_proto =
     \<lparr>users = [bob],
      auth = [],
      user_roles = [],
      user_divisions =
        [\<lparr>ud_user_id = 2, ud_division_name = ''__proto__'', ud_created_at = 10\<rparr>],
      user_logs = []\<rparr>"

text \<open>
  Requests to update Alice's profile. The clocks stand at noon of 2 January 1970, once
  on a server in UTC and once on a server seven hours east of it (where that instant is
  05:00 UTC). \<open>parse_example\<close> is the runtime's date parser on the four strings used:
  a date-only string is midnight UTC of that date.
\<close>

definition parse_example :: "string \<Rightarrow> timestamp option" where
  "parse_example =
     map_of [(''1970-01-01'', 0), (''1970-01-02'', 86400000), (''1970-01-03'', 172800000),
             (''1970-01-02T10:00:00Z'', 122400000)]"

definition clk_noon :: clock where
  "clk_noon = \<lparr>now = 129600000, tzOffset = 0, parseDate = parse_example\<rparr>"

definition clk_jakarta :: clock where
  "clk_jakarta = \<lparr>now = 104400000, tzOffset = 25200000, parseDate = parse_example\<rparr>"

definition good_request :: ProfileData where
  "good_request =
     \<lparr>username = Some ''alice_new'', fullName = Some ''Alice A'',
      email = Some ''alice@example.org'', phone = Some ''0812345678'',
      birthDate = Some ''1970-01-01'', bio = None, longBio = None, address = None,
      profileJson = None\<rparr>"


definition updated_alice :: user_row where
  "updated_alice =
     alice\<lparr>u_username := Some ''alice_new'', u_full_name := Some ''Alice A'',
           u_birth_date := Some ''1970-01-01'', u_bio := None, u_address := None,
           u_phone_number := Some ''0812345678'', u_updated_at := 129600000\<rparr>"

definition updated_alice_view :: profile_view where
  "updated_alice_view =
     \<lparr>pv_id = 1, pv_authId = Some 1, pv_username = Some ''alice_new'',
      pv_fullName = Some ''Alice A'', pv_bio = None, pv_longBio = None,
      pv_profileJson = None, pv_address = None, pv_phoneNumber = Some ''0812345678'',
      pv_birthDate = Some ''1970-01-01'', pv_role = Some ''admin'',
      pv_division = Some ''Engineering'', pv_logCount = 1, pv_roleCount = 1\<rparr>"

text \<open>The same request with a birth date on the clock's own calendar day.\<close>

definition born_this_morning :: ProfileData where
  "born_this_morning = good_request\<lparr>birthDate := Some ''1970-01-02T10:00:00Z''\<rparr>"

definition born_today :: ProfileData where
  "born_today = good_request\<lparr>birthDate := Some ''1970-01-02''\<rparr>"

section \<open>Properties of the listing\<close>

lemmas listing_defs =
  listUsers_def page_offset_def to_double_def number_text_def users_query_def
  unpaged_rows_def joined_rows_def rows_for_def outer_def
  roles_of_def divisions_of_def logs_of_def user_stats_def user_role_stats_def
  user_division_stats_def order_by_def ordered_before_def shape_def count_query_def
  count_rows_for_def summarize_def summary_step_def get_property_def set_property_def
  object_prototype_keys_def Let_def

lemma listUsers_db_team: "listUsers db_team None 1 2 = ListOk page_team"
  by (simp add: listing_defs db_team_def alice_def bob_def carol_def page_team_def
      view_carol_def view_bob_def)

subsection \<open>Ordering and the page window\<close>

lemma set_place: "set (place r rows) = insert r (set rows)"
  by (induction rows) auto

lemma length_place: "length (place r rows) = Suc (length rows)"
  by (induction rows) auto

lemma ordered_before_total: "\<not> ordered_before r s \<Longrightarrow> ordered_before s r"
  by (auto simp: ordered_before_def)

lemma ordered_before_trans: "ordered_before r s \<Longrightarrow> ordered_before s t \<Longrightarrow> ordered_before r t"
  by (auto simp: ordered_before_def)

lemma sorted_place:
  "sorted_wrt ordered_before rows \<Longrightarrow> sorted_wrt ordered_before (place r rows)"
proof (induction rows)
  case Nil
  show ?case by simp
next
  case (Cons s rest)
  show ?case
  proof (cases "ordered_before r s")
    case True
    with Cons.prems show ?thesis
      by (auto intro: ordered_before_trans)
  next
    case False
    with Cons show ?thesis
      by (auto simp: set_place dest: ordered_before_total)
  qed
qed

lemma set_order_by: "set (order_by rows) = set rows"
  by (induction rows) (auto simp: order_by_def set_place)

lemma length_order_by: "length (order_by rows) = length rows"
  by (induction rows) (auto simp: order_by_def length_place)

lemma sorted_order_by: "sorted_wrt ordered_before (order_by rows)"
  by (induction rows) (auto simp: order_by_def sorted_place)

lemma number_examples:
  "to_double (2 ^ 53 + 1) = 2 ^ 53"
  "to_double (2 ^ 53 + 3) = 2 ^ 53 + 4"
  "number_text (2 ^ 60) = 1152921504606847000"
  "number_text (2 ^ 63 - 1024) = 9223372036854775000"
  "page_offset 3 (2 ^ 62) = 2 ^ 63"
  by code_simp+

lemma number_text_safe: "v \<le> 2 ^ 53 \<Longrightarrow> number_text v = v"
  by (simp add: number_text_def)

lemma page_offset_safe:
  assumes "\<bar>page - 1\<bar> \<le> 2 ^ 53" and "\<bar>(page - 1) * pageSize\<bar> \<le> 2 ^ 53"
  shows "page_offset page pageSize = (page - 1) * pageSize"
  using assms by (simp add: page_offset_def to_double_def)

lemma listUsers_ok:
  assumes "listUsers db f page pageSize = ListOk b"
  shows "0 \<le> pageSize \<and> pageSize < 2 ^ 63"
    and "0 \<le> page_offset page pageSize \<and> page_offset page pageSize < 2 ^ 63"
    and "res_users b = map shape (take (nat (number_text pageSize))
           (drop (nat (number_text (page_offset page pageSize)))
             (unpaged_rows db (where_division f))))"
    and "res_total b = count_query db (where_division f)"
    and "res_totalPages b = (if pageSize = 0 then None
           else Some \<lceil>real (count_query db (where_division f)) / real_of_int pageSize\<rceil>)"
    and "res_usersByDivision b = usersByDivision (summarize (res_users b))"
  using assms
  by (auto simp: listUsers_def users_query_def Let_def split: if_splits)

lemma shape_keys: "lv_id (shape r) = u_id (q_user r)" "lv_createdAt (shape r) = u_created_at (q_user r)"
  by (simp_all add: shape_def Let_def)

subsection \<open>The joins, one user at a time\<close>

lemma outer_nonempty: "\<exists>y. y \<in> set (outer ys)"
  by (cases ys) (auto simp: outer_def)

lemma outer_Nil: "outer [] = [None]"
  by (simp add: outer_def)

lemma set_outer: "set (outer ys) = (if ys = [] then {None} else Some ` set ys)"
  by (simp add: outer_def)

lemma filter_group:
  assumes "distinct ids" and "\<And>x. key (f x) = x"
  shows "filter (\<lambda>s. key s = a) (map f ids) = (if a \<in> set ids then [f a] else [])"
  using assms(1)
proof (induction ids)
  case Nil
  show ?case by simp
next
  case (Cons x ids)
  then show ?case by (auto simp: assms(2) filter_empty_conv)
qed

lemma user_stats_of:
  "filter (\<lambda>s. us_user_id s = uid) (user_stats db) =
     (if logs_of db uid = [] then []
      else [\<lparr>us_user_id = uid,
              us_log_count = length (logs_of db uid),
              us_login_count = length (filter (\<lambda>l. ul_action l = ''login'') (logs_of db uid)),
              us_update_count =
                length (filter (\<lambda>l. ul_action l = ''update_profile'') (logs_of db uid))\<rparr>])"
proof -
  have "(logs_of db uid = []) = (uid \<notin> set (remdups (map ul_user_id (user_logs db))))"
    by (auto simp: logs_of_def filter_empty_conv)
  then show ?thesis
    unfolding user_stats_def by (subst filter_group) auto
qed

lemma user_role_stats_of:
  "filter (\<lambda>s. fst s = uid) (user_role_stats db) =
     (if roles_of db uid = [] then [] else [(uid, length (roles_of db uid))])"
proof -
  have "(roles_of db uid = []) = (uid \<notin> set (remdups (map ur_user_id (user_roles db))))"
    by (auto simp: roles_of_def filter_empty_conv)
  then show ?thesis
    unfolding user_role_stats_def by (subst filter_group) auto
qed

lemma user_division_stats_of:
  "filter (\<lambda>s. fst s = uid) (user_division_stats db) =
     (if divisions_of db uid = [] then [] else [(uid, length (divisions_of db uid))])"
proof -
  have "(divisions_of db uid = []) = (uid \<notin> set (remdups (map ud_user_id (user_divisions db))))"
    by (auto simp: divisions_of_def filter_empty_conv)
  then show ?thesis
    unfolding user_division_stats_def by (subst filter_group) auto
qed

lemma outer_group: "outer (if c then [] else [x]) = [if c then None else Some x]"
  by (simp add: outer_def)

lemma rows_for_eq:
  "rows_for db u =
     [ \<lparr>q_user = u,
        q_email = (case a of None \<Rightarrow> None | Some a' \<Rightarrow> a_email a'),
        q_role = map_option ur_role ur,
        q_division_name = map_option ud_division_name ud,
        q_log_count = length (logs_of db (u_id u)),
        q_role_count = length (roles_of db (u_id u)),
        q_division_count = length (divisions_of db (u_id u)),
        q_login_count = length (filter (\<lambda>l. ul_action l = ''login'') (logs_of db (u_id u))),
        q_update_count =
          length (filter (\<lambda>l. ul_action l = ''update_profile'') (logs_of db (u_id u)))\<rparr>.
       a \<leftarrow> outer (filter (\<lambda>a. u_auth_id u = Some (a_id a)) (auth db)),
       ur \<leftarrow> outer (roles_of db (u_id u)),
       ud \<leftarrow> outer (divisions_of db (u_id u)) ]"
  unfolding rows_for_def user_stats_of user_role_stats_of user_division_stats_of outer_group
  by (rule arg_cong [where f = concat] map_cong refl | simp)+

lemma rows_for_fields:
  assumes "r \<in> set (rows_for db u)"
  shows "q_user r = u"
    and "q_log_count r = length (logs_of db (u_id u))"
    and "q_role_count r = length (roles_of db (u_id u))"
    and "q_division_count r = length (divisions_of db (u_id u))"
    and "q_role r \<in> map_option ur_role ` set (outer (roles_of db (u_id u)))"
    and "q_division_name r \<in> map_option ud_division_name ` set (outer (divisions_of db (u_id u)))"
  using assms unfolding rows_for_eq by auto

lemma rows_for_division:
  assumes "ud \<in> set (outer (divisions_of db (u_id u)))"
  shows "\<exists>r \<in> set (rows_for db u). q_division_name r = map_option ud_division_name ud"
proof -
  obtain a where "a \<in> set (outer (filter (\<lambda>a. u_auth_id u = Some (a_id a)) (auth db)))"
    using outer_nonempty by blast
  moreover obtain ur where "ur \<in> set (outer (roles_of db (u_id u)))"
    using outer_nonempty by blast
  ultimately show ?thesis
    using assms unfolding rows_for_eq by fastforce
qed

subsection \<open>Which users the two queries see\<close>

lemma where_clause_iff: "where_clause w dn = (\<forall>d. w = Some d \<longrightarrow> dn = Some d)"
  by (cases w) auto

lemma outer_Some: "Some z \<in> set (outer ys) \<Longrightarrow> z \<in> set ys"
  by (auto simp: outer_def split: if_splits)

lemma division_names_outer:
  "(Some d \<in> map_option ud_division_name ` set (outer (divisions_of db uid))) =
   (d \<in> ud_division_name ` set (divisions_of db uid))"
  by (auto simp: set_outer image_iff split: if_splits)

lemma where_clause_row:
  assumes "\<forall>d. w = Some d \<longrightarrow> d \<in> ud_division_name ` set (divisions_of db uid)"
  shows "\<exists>ud \<in> set (outer (divisions_of db uid)). where_clause w (map_option ud_division_name ud)"
proof (cases w)
  case None
  then show ?thesis using outer_nonempty [of "divisions_of db uid"] by auto
next
  case (Some d)
  with assms obtain x where x: "x \<in> set (divisions_of db uid)" and d: "d = ud_division_name x"
    by blast
  from x have "Some x \<in> set (outer (divisions_of db uid))"
    by (auto simp: set_outer)
  with Some d show ?thesis
    by (intro bexI [of _ "Some x"]) simp_all
qed

lemma count_rows_ids:
  "fst ` {r \<in> set (concat (map (count_rows_for db) (users db))). where_clause w (snd r)} =
   u_id ` {u \<in> set (users db).
             \<forall>d. w = Some d \<longrightarrow> d \<in> ud_division_name ` set (divisions_of db (u_id u))}"
  (is "?L = ?R")
proof (intro equalityI subsetI)
  fix x assume "x \<in> ?L"
  then obtain u ud where u: "u \<in> set (users db)" and ud: "ud \<in> set (outer (divisions_of db (u_id u)))"
    and x: "x = u_id u" and w: "where_clause w (map_option ud_division_name ud)"
    by (auto simp: count_rows_for_def)
  have "\<forall>d. w = Some d \<longrightarrow> d \<in> ud_division_name ` set (divisions_of db (u_id u))"
    using w ud by (auto simp: where_clause_iff dest!: outer_Some)
  with u x show "x \<in> ?R" by blast
next
  fix x assume "x \<in> ?R"
  then obtain u where u: "u \<in> set (users db)" and x: "x = u_id u"
    and m: "\<forall>d. w = Some d \<longrightarrow> d \<in> ud_division_name ` set (divisions_of db (u_id u))"
    by blast
  from m obtain ud where "ud \<in> set (outer (divisions_of db (u_id u)))"
    and "where_clause w (map_option ud_division_name ud)" using where_clause_row by blast
  with u x show "x \<in> ?L"
    by (force simp: count_rows_for_def)
qed

lemma unpaged_rows_ids:
  "(\<lambda>r. u_id (q_user r)) ` set (unpaged_rows db w) =
   u_id ` {u \<in> set (users db).
             \<forall>d. w = Some d \<longrightarrow> d \<in> ud_division_name ` set (divisions_of db (u_id u))}"
  (is "?L = ?R")
proof (intro equalityI subsetI)
  fix x assume "x \<in> ?L"
  then obtain r u where u: "u \<in> set (users db)" and r: "r \<in> set (rows_for db u)"
    and x: "x = u_id (q_user r)" and w: "where_clause w (q_division_name r)"
    by (auto simp: unpaged_rows_def set_order_by joined_rows_def)
  have "\<forall>d. w = Some d \<longrightarrow> d \<in> ud_division_name ` set (divisions_of db (u_id u))"
    using w rows_for_fields(6) [OF r] by (auto simp: where_clause_iff dest!: outer_Some)
  with u x rows_for_fields(1) [OF r] show "x \<in> ?R" by blast
next
  fix x assume "x \<in> ?R"
  then obtain u where u: "u \<in> set (users db)" and x: "x = u_id u"
    and m: "\<forall>d. w = Some d \<longrightarrow> d \<in> ud_division_name ` set (divisions_of db (u_id u))"
    by blast
  from m obtain ud where "ud \<in> set (outer (divisions_of db (u_id u)))"
    and w: "where_clause w (map_option ud_division_name ud)" using where_clause_row by blast
  then obtain r where r: "r \<in> set (rows_for db u)" and "q_division_name r = map_option ud_division_name ud"
    using rows_for_division by blast
  with w have "r \<in> set (unpaged_rows db w)"
    using u by (auto simp: unpaged_rows_def set_order_by joined_rows_def)
  with x rows_for_fields(1) [OF r] show "x \<in> ?L" by force
qed

lemma count_query_card:
  "count_query db w =
     card (u_id ` {u \<in> set (users db).
             \<forall>d. w = Some d \<longrightarrow> d \<in> ud_division_name ` set (divisions_of db (u_id u))})"
  unfolding count_query_def length_remdups_card_conv
  by (simp add: count_rows_ids [symmetric])

lemma ceiling_pages:
  fixes total :: nat and pageSize :: int
  assumes "1 \<le> pageSize"
  shows "int total \<le> \<lceil>real total / real_of_int pageSize\<rceil> * pageSize"
    and "(\<lceil>real total / real_of_int pageSize\<rceil> - 1) * pageSize < int total"
proof -
  let ?n = "\<lceil>real total / real_of_int pageSize\<rceil>"
  have pos: "0 < real_of_int pageSize" using assms by simp
  have "real total / real_of_int pageSize \<le> of_int ?n" by (rule le_of_int_ceiling)
  with pos have "real total \<le> of_int ?n * real_of_int pageSize"
    by (simp only: pos_divide_le_eq)
  then have "real_of_int (int total) \<le> real_of_int (?n * pageSize)" by simp
  then show "int total \<le> ?n * pageSize" by (simp only: of_int_le_iff)
  have "of_int ?n - 1 < real total / real_of_int pageSize" by linarith
  with pos have "(of_int ?n - 1) * real_of_int pageSize < real total"
    by (simp only: pos_less_divide_eq)
  then have "real_of_int ((?n - 1) * pageSize) < real_of_int (int total)" by simp
  then show "(?n - 1) * pageSize < int total" by (simp only: of_int_less_iff)
qed

subsection \<open>Pages\<close>

lemma rows_for_nonempty: "\<exists>r. r \<in> set (rows_for db u)"
  using rows_for_division [of _ db u] outer_nonempty [of "divisions_of db (u_id u)"] by blast

lemma window_holds_index:
  assumes "i < length xs" and "0 < n"
  shows "xs ! i \<in> set (take n (drop (i div n * n) xs))"
proof -
  let ?k = "i div n * n"
  have k: "?k \<le> i" by simp
  have j: "i - ?k < n" using assms(2) by (simp add: minus_div_mult_eq_mod)
  have "i - ?k < length xs - ?k" using assms(1) k by linarith
  then have len: "i - ?k < length (drop ?k xs)" by simp
  have "?k \<le> length xs" using assms(1) k by linarith
  then have "drop ?k xs ! (i - ?k) = xs ! (?k + (i - ?k))" by (rule nth_drop)
  also have "?k + (i - ?k) = i" using k by (rule le_add_diff_inverse)
  finally have "take n (drop ?k xs) ! (i - ?k) = xs ! i"
    using j by (simp only: nth_take)
  moreover have "i - ?k < length (take n (drop ?k xs))" using j len by simp
  ultimately show ?thesis by (metis nth_mem)
qed

lemma listUsers_succeeds:
  assumes "0 \<le> pageSize" and "pageSize < 2 ^ 63"
    and "0 \<le> page_offset page pageSize" and "page_offset page pageSize < 2 ^ 63"
  shows "\<exists>b. listUsers db f page pageSize = ListOk b"
  using assms by (simp add: listUsers_def users_query_def Let_def)

lemma listUsers_rejects:
  assumes "pageSize < 0 \<or> 2 ^ 63 \<le> pageSize \<or>
           page_offset page pageSize < 0 \<or> 2 ^ 63 \<le> page_offset page pageSize"
  shows "listUsers db f page pageSize = ListServerError"
  using assms by (auto simp: listUsers_def users_query_def Let_def)

lemma unpaged_rows_all: "length (unpaged_rows db None) = length (joined_rows db)"
  by (simp add: unpaged_rows_def length_order_by)

lemma shape_fields:
  "lv_logCount (shape r) = q_log_count r"
  "lv_roleCount (shape r) = q_role_count r"
  "lv_divisionCount (shape r) = q_division_count r"
  "lv_role (shape r) = q_role r"
  "lv_division (shape r) = q_division_name r"
  "lv_isActive (shape r) = (5 < q_log_count r)"
  "lv_isSenior (shape r) = (q_role r = Some ''admin'' \<or> q_role r = Some ''moderator'')"
  by (simp_all add: shape_def Let_def)

lemma page_rows:
  assumes "listUsers db f page pageSize = ListOk b" and "v \<in> set (res_users b)"
  shows "\<exists>u \<in> set (users db). \<exists>r \<in> set (rows_for db u). v = shape r"
proof -
  from listUsers_ok(3) [OF assms(1)] assms(2)
  obtain r where "v = shape r" and "r \<in> set (unpaged_rows db (where_division f))"
    by (auto dest!: in_set_takeD in_set_dropD)
  then show ?thesis
    by (auto simp: unpaged_rows_def set_order_by joined_rows_def)
qed

subsection \<open>Claims about the listing\<close>

text \<open>
  Claim C7. The rows of a listing response are ordered by creation time, newest first,
  and rows with the same creation time by id, greatest first: of two returned rows the
  earlier one has a creation time at least the later one's, and with equal creation
  times an id at least the later one's.
\<close>

theorem listUsers_ordered:
  assumes "listUsers db f page pageSize = ListOk b" and "i < j" and "j < length (res_users b)"
  shows "lv_createdAt (res_users b ! j) \<le> lv_createdAt (res_users b ! i) \<and>
         (lv_createdAt (res_users b ! j) = lv_createdAt (res_users b ! i) \<longrightarrow>
            lv_id (res_users b ! j) \<le> lv_id (res_users b ! i))"
proof -
  let ?page = "take (nat (number_text pageSize))
                 (drop (nat (number_text (page_offset page pageSize)))
                   (unpaged_rows db (where_division f)))"
  have views: "res_users b = map shape ?page"
    using assms(1) by (rule listUsers_ok)
  have "sorted_wrt ordered_before (unpaged_rows db (where_division f))"
    by (simp add: unpaged_rows_def sorted_order_by)
  then have "sorted_wrt ordered_before ?page"
    by (intro sorted_wrt_take sorted_wrt_drop)
  moreover have "j < length ?page" using assms(3) views by simp
  ultimately have "ordered_before (?page ! i) (?page ! j)"
    using assms(2) by (simp add: sorted_wrt_iff_nth_less)
  moreover have "res_users b ! i = shape (?page ! i)" "res_users b ! j = shape (?page ! j)"
    using views assms(2) \<open>j < length ?page\<close> by simp_all
  ultimately show ?thesis
    by (auto simp: ordered_before_def shape_keys)
qed

theorem listUsers_ordered_witness:
  "listUsers db_team None 1 2 = ListOk page_team \<and> (0::nat) < 1 \<and>
   1 < length (res_users page_team) \<and>
   lv_createdAt (res_users page_team ! 1) = lv_createdAt (res_users page_team ! 0) \<and>
   lv_id (res_users page_team ! 1) \<le> lv_id (res_users page_team ! 0)"
proof -
  have len: "1 < length (res_users page_team)"
    by (simp add: page_team_def)
  have same: "lv_createdAt (res_users page_team ! 1) = lv_createdAt (res_users page_team ! 0)"
    by (simp add: page_team_def view_carol_def view_bob_def)
  from listUsers_ordered [OF listUsers_db_team _ len, of 0] same
  have "lv_id (res_users page_team ! 1) \<le> lv_id (res_users page_team ! 0)"
    by simp
  with len same listUsers_db_team show ?thesis by simp
qed

text \<open>
  Claim C4. For a fixed storage state and division filter, the total of a listing
  response is the number of distinct ids of the users that pass the filter (all users
  without a filter, the users with an assignment to the division with one), which is also
  the number of distinct user ids among the rows of the row query before its window; it
  is the same for every page and page size; and for a page size of at least one the
  response's \<^verbatim>\<open>totalPages\<close> is the ceiling of total / pageSize, the least number of pages
  of that size that hold \<open>total\<close> rows.
\<close>

theorem listUsers_total:
  assumes "listUsers db f page pageSize = ListOk b"
  shows "res_total b =
           card (u_id ` {u \<in> set (users db).
                   \<forall>d. where_division f = Some d \<longrightarrow>
                         d \<in> ud_division_name ` set (divisions_of db (u_id u))}) \<and>
         res_total b = card ((\<lambda>r. u_id (q_user r)) ` set (unpaged_rows db (where_division f))) \<and>
         (\<forall>page' pageSize' b'.
             listUsers db f page' pageSize' = ListOk b' \<longrightarrow> res_total b' = res_total b) \<and>
         (1 \<le> pageSize \<longrightarrow>
            res_totalPages b = Some \<lceil>real (res_total b) / real_of_int pageSize\<rceil> \<and>
            (\<exists>n. res_totalPages b = Some n \<and> int (res_total b) \<le> n * pageSize \<and>
                  (n - 1) * pageSize < int (res_total b)))"
proof -
  note ok = listUsers_ok [OF assms]
  have 1: "res_total b =
           card (u_id ` {u \<in> set (users db).
                   \<forall>d. where_division f = Some d \<longrightarrow>
                         d \<in> ud_division_name ` set (divisions_of db (u_id u))})"
    using ok(4) by (simp add: count_query_card)
  have 2: "res_total b = card ((\<lambda>r. u_id (q_user r)) ` set (unpaged_rows db (where_division f)))"
    using 1 by (simp only: unpaged_rows_ids)
  have 3: "res_total b' = res_total b" if "listUsers db f page' pageSize' = ListOk b'"
    for page' pageSize' b'
    using listUsers_ok(4) [OF that] ok(4) by simp
  have 4: "res_totalPages b = Some \<lceil>real (res_total b) / real_of_int pageSize\<rceil> \<and>
            (\<exists>n. res_totalPages b = Some n \<and> int (res_total b) \<le> n * pageSize \<and>
                  (n - 1) * pageSize < int (res_total b))" if "1 \<le> pageSize"
  proof -
    have "res_totalPages b = Some \<lceil>real (res_total b) / real_of_int pageSize\<rceil>"
      using ok(4,5) that by simp
    then show ?thesis using ceiling_pages [OF that, of "res_total b"] by simp
  qed
  from 1 2 3 4 show ?thesis by blast
qed

theorem listUsers_total_witness:
  "listUsers db_team None 1 2 = ListOk page_team \<and>
   res_total page_team =
     card ((\<lambda>r. u_id (q_user r)) ` set (unpaged_rows db_team (where_division None))) \<and>
   res_total page_team = 3 \<and>
   res_totalPages page_team = Some \<lceil>real (res_total page_team) / real_of_int 2\<rceil> \<and>
   res_totalPages page_team = Some 2"
proof -
  note t = listUsers_total [OF listUsers_db_team]
  from t have "res_total page_team =
      card ((\<lambda>r. u_id (q_user r)) ` set (unpaged_rows db_team (where_division None)))"
    by blast
  moreover from t
  have "res_totalPages page_team = Some \<lceil>real (res_total page_team) / real_of_int 2\<rceil>"
    by simp
  ultimately show ?thesis
    using listUsers_db_team by (simp add: page_team_def)
qed

text \<open>
  Claim C8. A user without any activity-log, role-assignment or division-assignment row
  appears in the unfiltered listing, and every returned row with that user's id, in any
  listing response, has log, role and division counts of zero, no role, no division, and
  is neither active nor senior. The user appears on some page for every page size from 1
  to \<open>2 ^ 53\<close>, as long as the join yields at most \<open>2 ^ 53\<close> rows: in that range the
  offset is computed exactly and both parameters are sent as they are; the page found is
  itself a number of that range.
\<close>

theorem listUsers_childless_user:
  assumes "u \<in> set (users db)"
    and "logs_of db (u_id u) = []"
    and "roles_of db (u_id u) = []"
    and "divisions_of db (u_id u) = []"
  shows "(\<forall>f page pageSize b. listUsers db f page pageSize = ListOk b \<longrightarrow>
            (\<forall>v \<in> set (res_users b). lv_id v = u_id u \<longrightarrow>
               lv_logCount v = 0 \<and> lv_roleCount v = 0 \<and> lv_divisionCount v = 0 \<and>
               lv_role v = None \<and> lv_division v = None \<and>
               \<not> lv_isActive v \<and> \<not> lv_isSenior v)) \<and>
         (length (joined_rows db) \<le> 2 ^ 53 \<longrightarrow>
            (\<forall>pageSize. 1 \<le> pageSize \<and> pageSize \<le> 2 ^ 53 \<longrightarrow>
               (\<exists>page. 1 \<le> page \<and> page \<le> 2 ^ 53 \<and>
                  (\<exists>b. listUsers db None page pageSize = ListOk b \<and>
                       (\<exists>v \<in> set (res_users b). lv_id v = u_id u)))))"
proof (rule conjI; intro allI impI ballI)
  fix f page pageSize b v
  assume ok: "listUsers db f page pageSize = ListOk b"
    and v: "v \<in> set (res_users b)" and same: "lv_id v = u_id u"
  from page_rows [OF ok v] obtain u' r where r: "r \<in> set (rows_for db u')" and vr: "v = shape r"
    by blast
  have id: "u_id u' = u_id u"
    using same vr rows_for_fields(1) [OF r] by (simp add: shape_keys)
  show "lv_logCount v = 0 \<and> lv_roleCount v = 0 \<and> lv_divisionCount v = 0 \<and>
        lv_role v = None \<and> lv_division v = None \<and> \<not> lv_isActive v \<and> \<not> lv_isSenior v"
    using rows_for_fields(2-6) [OF r] assms(2-4)
    by (simp add: vr shape_fields id outer_Nil)
next
  fix pageSize :: int
  assume size: "length (joined_rows db) \<le> 2 ^ 53"
    and ps: "1 \<le> pageSize \<and> pageSize \<le> 2 ^ 53"
  let ?xs = "unpaged_rows db None"
  let ?n = "nat pageSize"
  obtain r where r: "r \<in> set (rows_for db u)" using rows_for_nonempty by blast
  with assms(1) have "r \<in> set ?xs"
    by (auto simp: unpaged_rows_def set_order_by joined_rows_def)
  then obtain i where i: "i < length ?xs" and ri: "?xs ! i = r"
    by (auto simp: in_set_conv_nth)
  let ?page = "int (i div ?n) + 1"
  have "i < 2 ^ 53"
    using i size by (simp add: unpaged_rows_all)
  then have small: "int i < 2 ^ 53"
    by (metis of_nat_less_iff of_nat_numeral of_nat_power)
  have prod: "(?page - 1) * pageSize = int (i div ?n * ?n)"
    using ps by simp
  have "i div ?n * ?n \<le> i" by simp
  then have "int (i div ?n * ?n) \<le> int i" by (simp only: of_nat_le_iff)
  then have le: "(?page - 1) * pageSize \<le> int i" by (simp only: prod)
  have "i div ?n \<le> i" by (rule div_le_dividend)
  then have quot: "int (i div ?n) \<le> int i" by (simp only: of_nat_le_iff)
  have nonneg: "0 \<le> (?page - 1) * pageSize" using ps by simp
  have pm: "?page - 1 = int (i div ?n)" by simp
  have q1: "\<bar>?page - 1\<bar> \<le> 2 ^ 53"
    unfolding pm using quot small by linarith
  have q2: "\<bar>(?page - 1) * pageSize\<bar> \<le> 2 ^ 53"
    using le nonneg small by linarith
  have exact: "page_offset ?page pageSize = (?page - 1) * pageSize"
    using q1 q2 by (rule page_offset_safe)
  have q3: "(?page - 1) * pageSize \<le> 2 ^ 53"
    using le small by linarith
  have sent: "number_text pageSize = pageSize"
    "number_text (page_offset ?page pageSize) = page_offset ?page pageSize"
    unfolding exact using ps q3 by (simp_all only: number_text_safe)
  have off: "nat (page_offset ?page pageSize) = i div ?n * ?n"
    unfolding exact using ps by (simp add: nat_mult_distrib)
  have range: "(2::int) ^ 53 < 2 ^ 63" by simp
  have "0 \<le> pageSize" "pageSize < 2 ^ 63" using ps range by linarith+
  moreover have "0 \<le> page_offset ?page pageSize" "page_offset ?page pageSize < 2 ^ 63"
    unfolding exact using nonneg q3 range by linarith+
  ultimately have "\<exists>b. listUsers db None ?page pageSize = ListOk b"
    by (rule listUsers_succeeds)
  then obtain b where ok: "listUsers db None ?page pageSize = ListOk b" by blast
  have "r \<in> set (take ?n (drop (i div ?n * ?n) ?xs))"
    using window_holds_index [OF i, of ?n] ps ri by simp
  then have "shape r \<in> set (res_users b)"
    using listUsers_ok(3) [OF ok] off sent by simp
  moreover have "lv_id (shape r) = u_id u"
    using rows_for_fields(1) [OF r] by (simp add: shape_keys)
  ultimately have found: "\<exists>v \<in> set (res_users b). lv_id v = u_id u" by blast
  have "?page \<le> 2 ^ 53" using quot small by linarith
  with ok found
  have "1 \<le> ?page \<and> ?page \<le> 2 ^ 53 \<and>
        (\<exists>b. listUsers db None ?page pageSize = ListOk b \<and>
            (\<exists>v \<in> set (res_users b). lv_id v = u_id u))"
    by auto
  then show "\<exists>page. 1 \<le> page \<and> page \<le> 2 ^ 53 \<and>
        (\<exists>b. listUsers db None page pageSize = ListOk b \<and>
            (\<exists>v \<in> set (res_users b). lv_id v = u_id u))"
    by blast
qed

theorem listUsers_childless_user_witness:
  "carol \<in> set (users db_team) \<and> logs_of db_team (u_id carol) = [] \<and>
   roles_of db_team (u_id carol) = [] \<and> divisions_of db_team (u_id carol) = [] \<and>
   listUsers db_team None 1 2 = ListOk page_team \<and>
   view_carol \<in> set (res_users page_team) \<and> lv_id view_carol = u_id carol \<and>
   lv_logCount view_carol = 0 \<and> lv_roleCount view_carol = 0 \<and>
   lv_divisionCount view_carol = 0 \<and> lv_role view_carol = None \<and>
   lv_division view_carol = None \<and> \<not> lv_isActive view_carol \<and> \<not> lv_isSenior view_carol \<and>
   length (joined_rows db_team) \<le> 2 ^ 53 \<and> (1::int) \<le> 2 \<and> (2::int) \<le> 2 ^ 53 \<and>
   (\<exists>page. 1 \<le> page \<and> page \<le> 2 ^ 53 \<and>
      (\<exists>b. listUsers db_team None page 2 = ListOk b \<and>
           (\<exists>v \<in> set (res_users b). lv_id v = u_id carol)))"
proof -
  have u: "carol \<in> set (users db_team)"
    by (simp add: db_team_def)
  have l: "logs_of db_team (u_id carol) = []"
    and r: "roles_of db_team (u_id carol) = []"
    and d: "divisions_of db_team (u_id carol) = []"
    by (simp_all add: logs_of_def roles_of_def divisions_of_def db_team_def carol_def)
  have v: "view_carol \<in> set (res_users page_team)"
    by (simp add: page_team_def)
  have i: "lv_id view_carol = u_id carol"
    by (simp add: view_carol_def carol_def)
  have "length (joined_rows db_team) = 3"
    by (simp add: listing_defs db_team_def alice_def bob_def carol_def)
  then have n: "length (joined_rows db_team) \<le> 2 ^ 53"
    by simp
  have p: "(1::int) \<le> 2 \<and> (2::int) \<le> 2 ^ 53"
    by simp
  note t = listUsers_childless_user [OF u l r d]
  from t listUsers_db_team v i
  have zero: "lv_logCount view_carol = 0 \<and> lv_roleCount view_carol = 0 \<and>
        lv_divisionCount view_carol = 0 \<and> lv_role view_carol = None \<and>
        lv_division view_carol = None \<and> \<not> lv_isActive view_carol \<and> \<not> lv_isSenior view_carol"
    by blast
  from t n p
  have page: "\<exists>page. 1 \<le> page \<and> page \<le> 2 ^ 53 \<and>
      (\<exists>b. listUsers db_team None page 2 = ListOk b \<and>
           (\<exists>v \<in> set (res_users b). lv_id v = u_id carol))"
    by blast
  from u l r d v i listUsers_db_team zero n p page show ?thesis
    by (intro conjI) simp_all
qed

subsection \<open>Rows per user\<close>

text \<open>
  Claim C1. The claim is that a page of the listing holds each user id at most once,
  every user being joined to one current role and one current division. The listing
  query joins \<^verbatim>\<open>user_roles\<close> and \<^verbatim>\<open>user_divisions\<close> without the
  \<^verbatim>\<open>ORDER BY created_at DESC LIMIT 1\<close> that the profile queries use, so a user is
  returned once per pair of assignments: for Bob with two roles the page holds his id
  twice, once with each role.
\<close>

theorem listUsers_repeats_user:
  "\<exists>b. listUsers db_two_roles None 1 20 = ListOk b \<and>
       map lv_id (res_users b) = [2, 2] \<and>
       map lv_role (res_users b) = [Some ''admin'', Some ''member'']"
  by (simp add: listing_defs db_two_roles_def bob_def)

text \<open>
  Claim C2. The claim is that the number of returned rows is
  min(pageSize, max(0, total - (page - 1) * pageSize)). The total counts distinct user
  ids while the rows are the joined rows, so for Bob with two roles the first page of
  twenty holds two rows for a total of one.
\<close>

theorem listUsers_row_count_exceeds_total:
  "\<exists>b. listUsers db_two_roles None 1 20 = ListOk b \<and>
       length (res_users b) = 2 \<and> res_total b = 1 \<and>
       int (length (res_users b)) \<noteq> min 20 (max 0 (int (res_total b) - (1 - 1) * 20))"
  by (simp add: listing_defs db_two_roles_def bob_def)

text \<open>
  What does hold: the number of returned rows is the size of the window over the joined
  rows that pass the filter, here for numbers in the range where the offset is exact.
\<close>

theorem listUsers_row_count:
  assumes "listUsers db f page pageSize = ListOk b"
    and "pageSize \<le> 2 ^ 53" and "\<bar>page - 1\<bar> \<le> 2 ^ 53"
    and "\<bar>(page - 1) * pageSize\<bar> \<le> 2 ^ 53"
  shows "int (length (res_users b)) =
           min pageSize
             (max 0 (int (length (unpaged_rows db (where_division f))) - (page - 1) * pageSize))"
proof -
  note ok = listUsers_ok [OF assms(1)]
  have exact: "page_offset page pageSize = (page - 1) * pageSize"
    using assms(3,4) by (rule page_offset_safe)
  have sent: "number_text pageSize = pageSize"
    "number_text ((page - 1) * pageSize) = (page - 1) * pageSize"
    using assms(2,4) by (simp_all add: number_text_safe)
  have "length (res_users b) =
      min (nat pageSize) (length (unpaged_rows db (where_division f)) - nat ((page - 1) * pageSize))"
    using ok(3) by (simp add: exact sent min.commute)
  with ok(1,2) exact show ?thesis by linarith
qed

theorem listUsers_row_count_witness:
  "listUsers db_team None 1 2 = ListOk page_team \<and> (2::int) \<le> 2 ^ 53 \<and>
   \<bar>(1::int) - 1\<bar> \<le> 2 ^ 53 \<and> \<bar>((1::int) - 1) * 2\<bar> \<le> 2 ^ 53 \<and>
   int (length (res_users page_team)) =
     min 2 (max 0 (int (length (unpaged_rows db_team (where_division None))) - (1 - 1) * 2))"
proof -
  have h: "(2::int) \<le> 2 ^ 53" "\<bar>(1::int) - 1\<bar> \<le> 2 ^ 53" "\<bar>((1::int) - 1) * 2\<bar> \<le> 2 ^ 53"
    by simp_all
  from listUsers_row_count [OF listUsers_db_team h] h listUsers_db_team show ?thesis
    by simp
qed

subsection \<open>The division summary\<close>

lemma overwrite_numbers:
  "list_all (\<lambda>kv. is_number (snd kv)) obj \<Longrightarrow> is_number v \<Longrightarrow>
   list_all (\<lambda>kv. is_number (snd kv)) (overwrite k v obj)"
  by (induction obj) auto

lemma get_property_number:
  assumes "list_all (\<lambda>kv. is_number (snd kv)) obj" and "k \<notin> set object_prototype_keys"
  shows "is_number (or_zero_plus_one (get_property obj k))"
proof (cases "map_of obj k")
  case None
  with assms(2) show ?thesis by (simp add: get_property_def)
next
  case (Some v)
  then have "(k, v) \<in> set obj" by (rule map_of_SomeD)
  with assms(1) have "is_number v" by (auto simp: list_all_iff)
  with Some show ?thesis by (cases v) (simp_all add: get_property_def)
qed

lemma overwrite_total:
  assumes "list_all (\<lambda>kv. is_number (snd kv)) obj" and "k \<notin> set object_prototype_keys"
  shows "division_total (overwrite k (or_zero_plus_one (get_property obj k)) obj) =
         division_total obj + 1"
  using assms(1)
proof (induction obj)
  case Nil
  with assms(2) show ?case by (simp add: get_property_def division_total_def)
next
  case (Cons kv rest)
  obtain k' v' where kv: "kv = (k', v')" by (cases kv)
  show ?case
  proof (cases "k' = k")
    case True
    from Cons.prems kv obtain n where "v' = JSNumber n" by (cases v') auto
    with True kv show ?thesis by (simp add: get_property_def division_total_def)
  next
    case False
    then have "get_property (kv # rest) k = get_property rest k"
      using kv by (simp add: get_property_def)
    with False kv Cons show ?thesis by (simp add: division_total_def)
  qed
qed

lemma proto_not_ordinary: "k \<notin> set object_prototype_keys \<Longrightarrow> k \<noteq> ''__proto__''"
  by (auto simp: object_prototype_keys_def)

lemma summary_step_total:
  assumes "list_all (\<lambda>kv. is_number (snd kv)) (usersByDivision acc)"
    and "division_key (lv_division v) \<notin> set object_prototype_keys"
  shows "list_all (\<lambda>kv. is_number (snd kv)) (usersByDivision (summary_step acc v)) \<and>
         division_total (usersByDivision (summary_step acc v)) =
           division_total (usersByDivision acc) + 1"
  using assms proto_not_ordinary [OF assms(2)]
  by (simp add: summary_step_def set_property_def overwrite_numbers get_property_number
      overwrite_total)

lemma foldl_summary_total:
  assumes "list_all (\<lambda>kv. is_number (snd kv)) (usersByDivision acc)"
    and "list_all (\<lambda>v. division_key (lv_division v) \<notin> set object_prototype_keys) views"
  shows "list_all (\<lambda>kv. is_number (snd kv)) (usersByDivision (foldl summary_step acc views)) \<and>
         division_total (usersByDivision (foldl summary_step acc views)) =
           division_total (usersByDivision acc) + length views"
  using assms
proof (induction views arbitrary: acc)
  case Nil
  then show ?case by simp
next
  case (Cons v views)
  from Cons.prems have step: "list_all (\<lambda>kv. is_number (snd kv)) (usersByDivision (summary_step acc v))"
    "division_total (usersByDivision (summary_step acc v)) = division_total (usersByDivision acc) + 1"
    using summary_step_total [of acc v] by simp_all
  from Cons.IH [OF step(1)] Cons.prems(2) step(2) show ?case by simp
qed

text \<open>
  Claim C9. The claim is that the values of \<^verbatim>\<open>usersByDivision\<close> sum to the number of rows
  of the page. For a division named \<^verbatim>\<open>__proto__\<close> the read
  \<^verbatim>\<open>acc.usersByDivision[user.division]\<close> finds the inherited accessor and the
  assignment is dropped by its setter: the page has one row and the summary no entry.
\<close>

theorem usersByDivision_proto:
  "\<exists>b. listUsers db_proto None 1 20 = ListOk b \<and>
       map lv_division (res_users b) = [Some ''__proto__''] \<and>
       res_usersByDivision b = [] \<and>
       division_total (res_usersByDivision b) \<noteq> length (res_users b)"
  by (simp add: listing_defs db_proto_def bob_def division_total_def)

text \<open>
  What does hold: when no division key of the page is the name of a member of
  \<^verbatim>\<open>Object.prototype\<close>, every value of the summary is a number and the values sum to the
  number of rows of the page.
\<close>

theorem usersByDivision_ordinary_names:
  assumes "listUsers db f page pageSize = ListOk b"
    and "list_all (\<lambda>v. division_key (lv_division v) \<notin> set object_prototype_keys) (res_users b)"
  shows "list_all (\<lambda>kv. is_number (snd kv)) (res_usersByDivision b) \<and>
         division_total (res_usersByDivision b) = length (res_users b)"
  using foldl_summary_total [OF _ assms(2), of "\<lparr>activeUsers = 0, seniorUsers = 0, usersWithCompleteProfiles = 0, usersByDivision = []\<rparr>"]
    listUsers_ok(6) [OF assms(1)]
  by (simp add: summarize_def division_total_def)

theorem usersByDivision_ordinary_names_witness:
  "listUsers db_team None 1 2 = ListOk page_team \<and>
   list_all (\<lambda>v. division_key (lv_division v) \<notin> set object_prototype_keys) (res_users page_team) \<and>
   division_total (res_usersByDivision page_team) = length (res_users page_team)"
proof -
  have h: "list_all (\<lambda>v. division_key (lv_division v) \<notin> set object_prototype_keys) (res_users page_team)"
    by (simp add: page_team_def view_carol_def view_bob_def object_prototype_keys_def)
  from usersByDivision_ordinary_names [OF listUsers_db_team h] h listUsers_db_team
  show ?thesis by simp
qed

section \<open>Properties of the profile update\<close>

subsection \<open>What the regular expressions accept\<close>






subsection \<open>Validation\<close>

lemmas profile_defs =
  updateProfile_def validate_def update_statement_def select_statement_def insert_log_def
  today_midnight_def msPerDay_def email_regex_def phone_regex_def eos_def nonspace_def
  whitespace_def digit_def roles_of_def divisions_of_def logs_of_def Let_def















subsection \<open>The statements of a successful update\<close>

lemma update_good:
  "fst (updateProfile clk_noon db_team 1 good_request) = UpdateOk updated_alice_view"
  "users (snd (updateProfile clk_noon db_team 1 good_request)) = [updated_alice, bob, carol]"
  "length (logs_of (snd (updateProfile clk_noon db_team 1 good_request)) 1) = 2"
  by (simp_all add: profile_defs clk_noon_def good_request_def parse_example_def db_team_def
      alice_def bob_def carol_def updated_alice_def updated_alice_view_def)

lemma updateProfile_ok:
  assumes "updateProfile clk db userId d = (UpdateOk v, db')"
  shows "validate clk d = []"
    and "db' = insert_log clk (update_statement clk db userId d) userId ''update_profile''"
    and "\<exists>others. select_statement (update_statement clk db userId d) userId = v # others"
  using assms
  by (auto simp: updateProfile_def Let_def split: if_splits list.splits)

lemma update_keeps_children:
  "user_logs (update_statement clk db userId d) = user_logs db"
  "user_roles (update_statement clk db userId d) = user_roles db"
  "user_divisions (update_statement clk db userId d) = user_divisions db"
  by (simp_all add: update_statement_def Let_def)

lemma update_keeps_children_of:
  "logs_of (update_statement clk db userId d) uid = logs_of db uid"
  "roles_of (update_statement clk db userId d) uid = roles_of db uid"
  "divisions_of (update_statement clk db userId d) uid = divisions_of db uid"
  by (simp_all add: logs_of_def roles_of_def divisions_of_def update_keeps_children)

lemma users_after_update:
  "users (update_statement clk db userId d) =
     map (\<lambda>u. if u_id u = userId
               then u\<lparr>u_username := username d, u_full_name := fullName d, u_bio := bio d,
                      u_long_bio := longBio d, u_address := address d,
                      u_phone_number := phone d, u_birth_date := birthDate d,
                      u_profile_json :=
                        (if truthy_json (profileJson d) then profileJson d else None),
                      u_updated_at := now clk\<rparr>
               else u) (users db)"
  by (simp add: update_statement_def Let_def)

lemma users_after_insert: "users (insert_log clk db userId action) = users db"
  by (simp add: insert_log_def)

lemma updated_row:
  assumes "u \<in> set (users (update_statement clk db userId d))" and "u_id u = userId"
  shows "u_username u = username d \<and> u_full_name u = fullName d \<and>
         u_phone_number u = phone d \<and> u_bio u = bio d \<and> u_long_bio u = longBio d \<and>
         u_address u = address d \<and> u_birth_date u = birthDate d \<and>
         u_profile_json u = (if truthy_json (profileJson d) then profileJson d else None) \<and>
         u_updated_at u = now clk"
proof -
  from assms(1) obtain u0 where "u0 \<in> set (users db)"
    and u: "u = (if u_id u0 = userId
               then u0\<lparr>u_username := username d, u_full_name := fullName d, u_bio := bio d,
                      u_long_bio := longBio d, u_address := address d,
                      u_phone_number := phone d, u_birth_date := birthDate d,
                      u_profile_json :=
                        (if truthy_json (profileJson d) then profileJson d else None),
                      u_updated_at := now clk\<rparr>
               else u0)"
    unfolding users_after_update by auto
  show ?thesis
  proof (cases "u_id u0 = userId")
    case True
    with u show ?thesis by simp
  next
    case False
    with u assms(2) show ?thesis by simp
  qed
qed

lemma selected_view:
  assumes "v \<in> set (select_statement db userId)"
  shows "\<exists>u \<in> set (users db). u_id u = userId \<and> pv_id v = userId \<and>
           pv_username v = u_username u \<and> pv_fullName v = u_full_name u \<and>
           pv_bio v = u_bio u \<and> pv_longBio v = u_long_bio u \<and>
           pv_profileJson v = u_profile_json u \<and> pv_address v = u_address u \<and>
           pv_phoneNumber v = u_phone_number u \<and> pv_birthDate v = u_birth_date u \<and>
           pv_role v = map_option ur_role (latest ur_created_at (roles_of db userId)) \<and>
           pv_division v =
             map_option ud_division_name (latest ud_created_at (divisions_of db userId)) \<and>
           pv_logCount v = length (logs_of db userId) \<and>
           pv_roleCount v = length (roles_of db userId)"
  using assms by (auto simp: select_statement_def)

lemma logs_after_insert:
  "user_logs (insert_log clk db userId action) =
     user_logs db @ [\<lparr>ul_user_id = userId, ul_action = action, ul_created_at = now clk\<rparr>]"
  by (simp add: insert_log_def)

text \<open>
  Claim C3, as amended. On a successful update the view is selected after the update
  statement and before the log row is appended: the response shows the new column
  values, the user's current role and division and the role count, and its log count is
  the number of the user's log rows before the request, one less than the number after
  it. The appended row is \<open>(userId, update_profile)\<close>.
\<close>

theorem updateProfile_view_before_log:
  assumes "updateProfile clk db userId d = (UpdateOk v, db')"
  shows "user_logs db' =
           user_logs db @
             [\<lparr>ul_user_id = userId, ul_action = ''update_profile'', ul_created_at = now clk\<rparr>] \<and>
         pv_logCount v = length (logs_of db userId) \<and>
         length (logs_of db' userId) = pv_logCount v + 1 \<and>
         pv_id v = userId \<and>
         pv_username v = username d \<and> pv_fullName v = fullName d \<and>
         pv_phoneNumber v = phone d \<and> pv_bio v = bio d \<and> pv_longBio v = longBio d \<and>
         pv_address v = address d \<and> pv_birthDate v = birthDate d \<and>
         pv_profileJson v = (if truthy_json (profileJson d) then profileJson d else None) \<and>
         pv_role v = map_option ur_role (latest ur_created_at (roles_of db userId)) \<and>
         pv_division v =
           map_option ud_division_name (latest ud_created_at (divisions_of db userId)) \<and>
         pv_roleCount v = length (roles_of db userId)"
proof -
  let ?db1 = "update_statement clk db userId d"
  note ok = updateProfile_ok [OF assms]
  have logs: "user_logs db' =
      user_logs db @
        [\<lparr>ul_user_id = userId, ul_action = ''update_profile'', ul_created_at = now clk\<rparr>]"
    using ok(2) by (simp add: logs_after_insert update_keeps_children)
  from ok(3) have "v \<in> set (select_statement ?db1 userId)" by auto
  from selected_view [OF this] obtain u where u: "u \<in> set (users ?db1)" "u_id u = userId"
    and v: "pv_id v = userId" "pv_username v = u_username u" "pv_fullName v = u_full_name u"
      "pv_bio v = u_bio u" "pv_longBio v = u_long_bio u" "pv_profileJson v = u_profile_json u"
      "pv_address v = u_address u" "pv_phoneNumber v = u_phone_number u"
      "pv_birthDate v = u_birth_date u"
      "pv_role v = map_option ur_role (latest ur_created_at (roles_of db userId))"
      "pv_division v =
         map_option ud_division_name (latest ud_created_at (divisions_of db userId))"
      "pv_logCount v = length (logs_of db userId)"
      "pv_roleCount v = length (roles_of db userId)"
    unfolding update_keeps_children_of by blast
  have after: "length (logs_of db' userId) = pv_logCount v + 1"
    using logs v(12) by (simp add: logs_of_def)
  from updated_row [OF u] v logs after show ?thesis by simp
qed

theorem updateProfile_view_before_log_witness:
  "updateProfile clk_noon db_team 1 good_request =
     (UpdateOk updated_alice_view, snd (updateProfile clk_noon db_team 1 good_request)) \<and>
   pv_logCount updated_alice_view = length (logs_of db_team 1) \<and>
   length (logs_of (snd (updateProfile clk_noon db_team 1 good_request)) 1) =
     pv_logCount updated_alice_view + 1"
proof -
  have h: "updateProfile clk_noon db_team 1 good_request =
     (UpdateOk updated_alice_view, snd (updateProfile clk_noon db_team 1 good_request))"
    using update_good(1) by (simp add: prod_eq_iff)
  from updateProfile_view_before_log [OF h] h show ?thesis by simp
qed

text \<open>
  Claim C3 as stated has the log row appended before the view is fetched, so that the
  returned log count includes it. For Alice, who has one log row, the response says 1
  and the store then holds 2.
\<close>

theorem updateProfile_view_misses_log:
  "fst (updateProfile clk_noon db_team 1 good_request) = UpdateOk updated_alice_view \<and>
   pv_logCount updated_alice_view = 1 \<and>
   length (logs_of (snd (updateProfile clk_noon db_team 1 good_request)) 1) = 2 \<and>
   pv_logCount updated_alice_view \<noteq>
     length (logs_of (snd (updateProfile clk_noon db_team 1 good_request)) 1)"
  using update_good(1,3) by (simp add: updated_alice_view_def)

text \<open>
  Claim C10. A successful update overwrites every mutable column of the user's row with
  the request's value: a row with the user's id exists afterwards, and every such row
  holds the request's username, full name, phone, bio, long bio, address, birth date and
  profile document. In particular a bio, long bio, address, birth date or profile
  document that the request leaves out is stored as NULL, whatever the row held before.
\<close>

theorem updateProfile_overwrites:
  assumes "updateProfile clk db userId d = (UpdateOk v, db')"
  shows "(\<exists>u \<in> set (users db'). u_id u = userId) \<and>
         (\<forall>u \<in> set (users db'). u_id u = userId \<longrightarrow>
            u_username u = username d \<and> u_full_name u = fullName d \<and>
            u_phone_number u = phone d \<and> u_bio u = bio d \<and> u_long_bio u = longBio d \<and>
            u_address u = address d \<and> u_birth_date u = birthDate d \<and>
            u_profile_json u = (if truthy_json (profileJson d) then profileJson d else None) \<and>
            (bio d = None \<longrightarrow> u_bio u = None) \<and>
            (longBio d = None \<longrightarrow> u_long_bio u = None) \<and>
            (address d = None \<longrightarrow> u_address u = None) \<and>
            (birthDate d = None \<longrightarrow> u_birth_date u = None) \<and>
            (profileJson d = None \<longrightarrow> u_profile_json u = None))"
proof -
  let ?db1 = "update_statement clk db userId d"
  note ok = updateProfile_ok [OF assms]
  have users: "users db' = users ?db1"
    using ok(2) by (simp add: users_after_insert)
  from ok(3) have "v \<in> set (select_statement ?db1 userId)" by auto
  from selected_view [OF this] users have ex: "\<exists>u \<in> set (users db'). u_id u = userId"
    by auto
  have "u_username u = username d \<and> u_full_name u = fullName d \<and>
            u_phone_number u = phone d \<and> u_bio u = bio d \<and> u_long_bio u = longBio d \<and>
            u_address u = address d \<and> u_birth_date u = birthDate d \<and>
            u_profile_json u = (if truthy_json (profileJson d) then profileJson d else None) \<and>
            (bio d = None \<longrightarrow> u_bio u = None) \<and>
            (longBio d = None \<longrightarrow> u_long_bio u = None) \<and>
            (address d = None \<longrightarrow> u_address u = None) \<and>
            (birthDate d = None \<longrightarrow> u_birth_date u = None) \<and>
            (profileJson d = None \<longrightarrow> u_profile_json u = None)"
    if "u \<in> set (users db')" "u_id u = userId" for u
    using updated_row [of u clk db userId d] that users by simp
  with ex show ?thesis by blast
qed

theorem updateProfile_overwrites_witness:
  "updateProfile clk_noon db_team 1 good_request =
     (UpdateOk updated_alice_view, snd (updateProfile clk_noon db_team 1 good_request)) \<and>
   updated_alice \<in> set (users (snd (updateProfile clk_noon db_team 1 good_request))) \<and>
   u_id updated_alice = 1 \<and>
   u_bio alice = Some ''old bio'' \<and> bio good_request = None \<and> u_bio updated_alice = None \<and>
   u_address alice = Some ''1 Main St'' \<and> address good_request = None \<and>
   u_address updated_alice = None"
proof -
  have h: "updateProfile clk_noon db_team 1 good_request =
     (UpdateOk updated_alice_view, snd (updateProfile clk_noon db_team 1 good_request))"
    using update_good(1) by (simp add: prod_eq_iff)
  have m: "updated_alice \<in> set (users (snd (updateProfile clk_noon db_team 1 good_request)))"
    by (simp add: update_good(2))
  have i: "u_id updated_alice = 1"
    by (simp add: updated_alice_def alice_def)
  have r: "bio good_request = None" "address good_request = None"
    by (simp_all add: good_request_def)
  from updateProfile_overwrites [OF h] m i r
  have "u_bio updated_alice = None \<and> u_address updated_alice = None"
    by blast
  with h m i r show ?thesis by (simp add: alice_def)
qed

subsection \<open>The birth date\<close>

text \<open>
  Claim C6. The claim is that a birth date on today's calendar date is accepted, whatever
  its time of day. The handler sets only \<^verbatim>\<open>today\<close> to midnight and compares the parsed
  birth date with it as an instant. At noon on a server in UTC, a birth date of 10:00 the
  same day, two hours in the past, is rejected as being in the future; on a server seven
  hours east of UTC, the date-only string of the current local date (read as midnight
  UTC, 07:00 local time) is rejected as well.
\<close>

theorem birthDate_today_rejected:
  "parseDate clk_noon ''1970-01-02T10:00:00Z'' = Some 122400000 \<and>
   local_day clk_noon 122400000 = local_day clk_noon (now clk_noon) \<and>
   122400000 < now clk_noon \<and>
   validate clk_noon born_this_morning =
     [(''birthDate'', ''Birth date cannot be in the future.'')] \<and>
   parseDate clk_jakarta ''1970-01-02'' = Some 86400000 \<and>
   local_day clk_jakarta 86400000 = local_day clk_jakarta (now clk_jakarta) \<and>
   86400000 < now clk_jakarta \<and>
   validate clk_jakarta born_today =
     [(''birthDate'', ''Birth date cannot be in the future.'')]"
  by (simp add: profile_defs local_day_def clk_noon_def clk_jakarta_def good_request_def
      born_this_morning_def born_today_def parse_example_def)

lemma today_midnight_day: "today_midnight clk = local_day clk (now clk) * msPerDay - tzOffset clk"
  by (simp add: today_midnight_def local_day_def Let_def minus_mod_eq_div_mult)

lemma msPerDay_pos: "0 < msPerDay"
  by (simp add: msPerDay_def)

lemma day_floor:
  fixes x D :: int
  assumes "0 < D"
  shows "x div D * D \<le> x" and "x < (x div D + 1) * D"
proof -
  have dm: "x div D * D + x mod D = x" by (rule div_mult_mod_eq)
  have m: "0 \<le> x mod D" "x mod D < D" using assms by simp_all
  from dm m(1) show "x div D * D \<le> x" by linarith
  have "(x div D + 1) * D = x div D * D + D" by (simp add: distrib_right)
  with dm m(2) show "x < (x div D + 1) * D" by linarith
qed

lemma later_day:
  assumes "local_day clk s < local_day clk t"
  shows "local_day clk s * msPerDay - tzOffset clk < t"
    and "s < local_day clk t * msPerDay - tzOffset clk"
proof -
  let ?a = "s + tzOffset clk" and ?b = "t + tzOffset clk"
  from assms have "?a div msPerDay + 1 \<le> ?b div msPerDay"
    by (simp add: local_day_def)
  then have le: "(?a div msPerDay + 1) * msPerDay \<le> ?b div msPerDay * msPerDay"
    using msPerDay_pos by (simp only: mult_le_cancel_right) simp
  have b: "?b div msPerDay * msPerDay \<le> ?b"
    using msPerDay_pos by (rule day_floor)
  have a: "?a < (?a div msPerDay + 1) * msPerDay"
    using msPerDay_pos by (rule day_floor)
  from le b msPerDay_pos have "?a div msPerDay * msPerDay < ?b"
    by (simp add: distrib_right)
  then show "local_day clk s * msPerDay - tzOffset clk < t"
    unfolding local_day_def by linarith
  from le a have "?a < ?b div msPerDay * msPerDay"
    by linarith
  then show "s < local_day clk t * msPerDay - tzOffset clk"
    unfolding local_day_def by linarith
qed

text \<open>
  What does hold: a given birth date is rejected exactly when its instant is after the
  last local midnight, so every birth date on a later calendar day is rejected and every
  birth date on an earlier calendar day is accepted.
\<close>

theorem birthDate_other_days:
  assumes "birthDate d = Some s" and "s \<noteq> []" and "parseDate clk s = Some t"
  shows "birthDate_rejected clk (birthDate d) = (today_midnight clk < t) \<and>
         (local_day clk (now clk) < local_day clk t \<longrightarrow>
            birthDate_rejected clk (birthDate d)) \<and>
         (local_day clk t < local_day clk (now clk) \<longrightarrow>
            \<not> birthDate_rejected clk (birthDate d))"
proof -
  have r: "birthDate_rejected clk (birthDate d) = (today_midnight clk < t)"
    using assms by simp
  have "today_midnight clk < t" if "local_day clk (now clk) < local_day clk t"
    using later_day(1) [OF that] by (simp add: today_midnight_day)
  moreover have "\<not> today_midnight clk < t" if "local_day clk t < local_day clk (now clk)"
    using later_day(2) [OF that] by (simp add: today_midnight_day)
  ultimately show ?thesis using r by blast
qed

theorem birthDate_other_days_witness:
  "birthDate (good_request\<lparr>birthDate := Some ''1970-01-03''\<rparr>) = Some ''1970-01-03'' \<and>
   parseDate clk_noon ''1970-01-03'' = Some 172800000 \<and>
   local_day clk_noon (now clk_noon) < local_day clk_noon 172800000 \<and>
   birthDate_rejected clk_noon (birthDate (good_request\<lparr>birthDate := Some ''1970-01-03''\<rparr>))"
proof -
  have b: "birthDate (good_request\<lparr>birthDate := Some ''1970-01-03''\<rparr>) = Some ''1970-01-03''"
    by simp
  have n: "''1970-01-03'' \<noteq> []" by simp
  have p: "parseDate clk_noon ''1970-01-03'' = Some 172800000"
    by (simp add: clk_noon_def parse_example_def)
  have l: "local_day clk_noon (now clk_noon) < local_day clk_noon 172800000"
    by (simp add: local_day_def clk_noon_def msPerDay_def)
  from birthDate_other_days [OF b n p] l b p show ?thesis by blast
qed

end
